theory Spec2Isabelle
  imports Main "HOL-Library.Word"
begin

unbundle bit_operations_syntax

section \<open>Machine integers, points and rectangles\<close>

text \<open>
  Go's \<open>int\<close> is 64 bits wide on the platforms the package targets and wraps around;
  a \<open>rune\<close> is an \<open>int32\<close>. Comparisons of \<open>int\<close> are signed.
\<close>

type_synonym goint = "64 word"
type_synonym rune = "32 word"

text \<open>\<open>image.Point\<close> and \<open>image.Rectangle\<close> of the standard library, with the operations
  the package calls. The fields \<open>Min\<close>, \<open>Max\<close> carry a suffix.\<close>

record Point =
  ptX :: goint
  ptY :: goint

record Rectangle =
  Min_r :: Point
  Max_r :: Point

definition Pt :: "goint \<Rightarrow> goint \<Rightarrow> Point" where
  "Pt x y = \<lparr>ptX = x, ptY = y\<rparr>"

definition Add_pt :: "Point \<Rightarrow> Point \<Rightarrow> Point" where
  "Add_pt p q = \<lparr>ptX = ptX p + ptX q, ptY = ptY p + ptY q\<rparr>"

definition ZR :: Rectangle where
  "ZR = \<lparr>Min_r = Pt 0 0, Max_r = Pt 0 0\<rparr>"

definition Empty_r :: "Rectangle \<Rightarrow> bool" where
  "Empty_r r = (ptX (Max_r r) \<le>s ptX (Min_r r) \<or> ptY (Max_r r) \<le>s ptY (Min_r r))"

definition Union_r :: "Rectangle \<Rightarrow> Rectangle \<Rightarrow> Rectangle" where
  "Union_r r s =
     (if Empty_r r then s
      else if Empty_r s then r
      else
        \<lparr>Min_r = \<lparr>ptX = (if ptX (Min_r s) <s ptX (Min_r r) then ptX (Min_r s) else ptX (Min_r r)),
                  ptY = (if ptY (Min_r s) <s ptY (Min_r r) then ptY (Min_r s) else ptY (Min_r r))\<rparr>,
         Max_r = \<lparr>ptX = (if ptX (Max_r r) <s ptX (Max_r s) then ptX (Max_r s) else ptX (Max_r r)),
                  ptY = (if ptY (Max_r r) <s ptY (Max_r s) then ptY (Max_r s) else ptY (Max_r r))\<rparr>\<rparr>)"

section \<open>The descriptor (descriptor.go)\<close>

record Padding =
  Up :: goint
  Right :: goint
  Down :: goint
  Left :: goint

record Spacing =
  Horizontal :: goint
  Vertical :: goint

record Info =
  Face :: string
  Size :: goint
  Bold :: bool
  Italic :: bool
  Charset :: string
  Unicode :: bool
  StretchH :: goint
  Smooth :: bool
  AA :: goint
  Padding :: Padding
  Spacing :: Spacing
  Outline :: goint

text \<open>\<open>ChannelInfo\<close> and \<open>Channel\<close> are named \<open>int\<close> types; the builder converts any
  integer into a \<open>ChannelInfo\<close>, so both are kept as integers.\<close>

type_synonym ChannelInfo = goint
type_synonym Channel = goint

record Common =
  LineHeight :: goint
  Base :: goint
  ScaleW :: goint
  ScaleH :: goint
  Packed :: bool
  AlphaChannel :: ChannelInfo
  RedChannel :: ChannelInfo
  GreenChannel :: ChannelInfo
  BlueChannel :: ChannelInfo

record Page =
  PageID :: goint
  File :: string

record Char =
  ID :: rune
  X :: goint
  Y :: goint
  Width :: goint
  Height :: goint
  XOffset :: goint
  YOffset :: goint
  XAdvance :: goint
  Page :: goint
  Channel :: Channel

definition Pos :: "Char \<Rightarrow> Point" where
  "Pos c = Pt (X c) (Y c)"

definition Size_c :: "Char \<Rightarrow> Point" where
  "Size_c c = Pt (Width c) (Height c)"

record CharPair =
  First :: rune
  Second :: rune

record Kerning =
  Amount :: goint

record Descriptor =
  Info :: Info
  Common :: Common
  Pages :: "goint \<rightharpoonup> Page"
  Chars :: "rune \<rightharpoonup> Char"
  Kerning :: "CharPair \<rightharpoonup> Kerning"

section \<open>Drawing and measuring (bitmapfont.go)\<close>

text \<open>A font: the descriptor and the decoded sheet of each page. A missing key of
  \<open>PageSheets\<close> reads as the nil image, \<open>None\<close>.\<close>

record 'img BitmapFont =
  Descriptor :: Descriptor
  PageSheets :: "goint \<rightharpoonup> 'img"

text \<open>\<open>char\<close>: the glyph of a rune, else the glyph of \<open>?\<close> (63), else not ok.\<close>

definition char :: "'img BitmapFont \<Rightarrow> rune \<Rightarrow> Char option" where
  "char f r =
     (case Chars (Descriptor f) r of
        None \<Rightarrow> Chars (Descriptor f) 63
      | Some c \<Rightarrow> Some c)"

text \<open>
  The \<open>drawer\<close> interface is a sink with one method \<open>Draw(r, src, sp)\<close>; a sink of state
  \<open>'d\<close> is the function that maps the state before a call to the state after it.
  The loop of \<open>drawText\<close> keeps the cursor, the previous rune and the sink.
\<close>

type_synonym ('d, 'img) drawer = "'d \<Rightarrow> Rectangle \<Rightarrow> 'img option \<Rightarrow> Point \<Rightarrow> 'd"

record 'd loop_state =
  cursor :: Point
  prev :: rune
  dst :: 'd

text \<open>
  One iteration of \<open>for i, r := range text\<close>. The index \<open>i\<close> of the source is the byte
  offset of the rune; the body only tests \<open>i > 0\<close>, which holds exactly from the second
  rune on, so the model counts runes.
\<close>

definition drawText_iter ::
  "'img BitmapFont \<Rightarrow> ('d, 'img) drawer \<Rightarrow> Point \<Rightarrow> nat \<Rightarrow> rune \<Rightarrow> 'd loop_state \<Rightarrow> 'd loop_state"
where
  "drawText_iter f D start i r st =
     (if r = 10 then
        st\<lparr>cursor := \<lparr>ptX = ptX start,
                       ptY = ptY (cursor st) + LineHeight (Common (Descriptor f))\<rparr>\<rparr>
      else
        case char f r of
          None \<Rightarrow> st
        | Some ch \<Rightarrow>
            let sheet = PageSheets f (Page ch);
                min = Pt (ptX (cursor st) + XOffset ch)
                         (ptY (cursor st) - Base (Common (Descriptor f)) + YOffset ch);
                dr = \<lparr>Min_r = min, Max_r = Add_pt min (Size_c ch)\<rparr>;
                d1 = D (dst st) dr sheet (Pos ch);
                x1 = ptX (cursor st) + XAdvance ch;
                x2 = (if 0 < i then
                        (case Kerning (Descriptor f) \<lparr>First = prev st, Second = r\<rparr> of
                           Some kerning \<Rightarrow> x1 + Amount kerning
                         | None \<Rightarrow> x1)
                      else x1)
            in \<lparr>cursor = \<lparr>ptX = x2, ptY = ptY (cursor st)\<rparr>, prev = r, dst = d1\<rparr>)"

fun drawText_loop ::
  "'img BitmapFont \<Rightarrow> ('d, 'img) drawer \<Rightarrow> Point \<Rightarrow> nat \<Rightarrow> rune list \<Rightarrow> 'd loop_state \<Rightarrow> 'd loop_state"
where
  "drawText_loop f D start i [] st = st"
| "drawText_loop f D start i (r # rs) st =
     drawText_loop f D start (Suc i) rs (drawText_iter f D start i r st)"

definition drawText ::
  "'img BitmapFont \<Rightarrow> ('d, 'img) drawer \<Rightarrow> 'd \<Rightarrow> Point \<Rightarrow> rune list \<Rightarrow> 'd"
where
  "drawText f D d start text = dst (drawText_loop f D start 0 text \<lparr>cursor = start, prev = 0, dst = d\<rparr>)"

text \<open>\<open>imageDrawer.Draw\<close> hands the call to \<open>draw.Draw\<close> of the standard library with the
  operator \<open>draw.Over\<close>; that compositing primitive is the parameter \<open>blit\<close>.\<close>

definition imageDrawer_Draw :: "('d, 'img) drawer \<Rightarrow> ('d, 'img) drawer" where
  "imageDrawer_Draw blit d r src sp = blit d r src sp"

definition boundsMeasurer_Draw :: "(Rectangle, 'img) drawer" where
  "boundsMeasurer_Draw bounds r src sp = Union_r bounds r"

definition DrawText ::
  "'img BitmapFont \<Rightarrow> ('d, 'img) drawer \<Rightarrow> 'd \<Rightarrow> Point \<Rightarrow> rune list \<Rightarrow> 'd"
where
  "DrawText f blit d start text = drawText f (imageDrawer_Draw blit) d start text"

definition MeasureText :: "'img BitmapFont \<Rightarrow> rune list \<Rightarrow> Rectangle" where
  "MeasureText f text = drawText f boundsMeasurer_Draw ZR (Pt 0 0) text"

text \<open>A sink that only records the calls it receives, in order.\<close>

definition record_Draw :: "((Rectangle \<times> 'img option \<times> Point) list, 'img) drawer" where
  "record_Draw calls r src sp = calls @ [(r, src, sp)]"

definition draw_calls ::
  "'img BitmapFont \<Rightarrow> Point \<Rightarrow> rune list \<Rightarrow> (Rectangle \<times> 'img option \<times> Point) list"
where
  "draw_calls f start text = drawText f record_Draw [] start text"

section \<open>Library functions the parser calls\<close>

text \<open>
  The parser reads its input through \<open>text/scanner\<close> and converts attribute values with
  \<open>strconv\<close> and \<open>strings\<close> of the Go standard library. These are modelled here as far as
  the parser can observe them. A source and every string are byte sequences in UTF-8; a
  code point is an integer.
\<close>

abbreviation (input) ord :: "char \<Rightarrow> int" where
  "ord c \<equiv> of_char c"

subsection \<open>Unicode\<close>

text \<open>
  The classes of the package \<open>unicode\<close> and of \<open>strconv.IsPrint\<close> are tables of the Go
  release in use. Below 128 they are written out; from 128 on they are a parameter of the
  model, which every function that classifies characters takes as its first argument.
\<close>

record unicode =
  IsLetter :: "int \<Rightarrow> bool"
  IsDigit :: "int \<Rightarrow> bool"
  IsPrint :: "int \<Rightarrow> bool"

definition isLetter :: "unicode \<Rightarrow> int \<Rightarrow> bool" where
  "isLetter U ch =
     (if ch < 128 then ord (CHR ''a'') \<le> ch \<and> ch \<le> ord (CHR ''z'')
                     \<or> ord (CHR ''A'') \<le> ch \<and> ch \<le> ord (CHR ''Z'')
      else IsLetter U ch)"

definition isDecimal :: "int \<Rightarrow> bool" where
  "isDecimal ch = (ord (CHR ''0'') \<le> ch \<and> ch \<le> ord (CHR ''9''))"

definition isDigit :: "unicode \<Rightarrow> int \<Rightarrow> bool" where
  "isDigit U ch = (if ch < 128 then isDecimal ch else IsDigit U ch)"

definition isPrint :: "unicode \<Rightarrow> int \<Rightarrow> bool" where
  "isPrint U ch = (if ch < 128 then 32 \<le> ch \<and> ch < 127 else IsPrint U ch)"

text \<open>\<open>unicode.IsSpace\<close>: the Latin-1 spaces and the property White_Space.\<close>

definition IsSpace :: "int \<Rightarrow> bool" where
  "IsSpace ch =
     (9 \<le> ch \<and> ch \<le> 13 \<or> ch = 32 \<or> ch = 133 \<or> ch = 160 \<or> ch = 5760
      \<or> 8192 \<le> ch \<and> ch \<le> 8202 \<or> ch = 8232 \<or> ch = 8233 \<or> ch = 8239 \<or> ch = 8287
      \<or> ch = 12288)"

subsection \<open>UTF-8\<close>

text \<open>
  \<open>utf8.DecodeRune\<close>: the first code point of a byte sequence and its width in bytes. A
  byte that starts no well-formed encoding (too short, overlong, a surrogate, beyond
  U+10FFFF) decodes to \<open>RuneError\<close>, U+FFFD, of width 1.
\<close>

definition RuneError :: int where
  "RuneError = 65533"

definition cont :: "string \<Rightarrow> nat \<Rightarrow> int \<Rightarrow> int \<Rightarrow> bool" where
  "cont s k lo hi = (k < length s \<and> lo \<le> ord (s ! k) \<and> ord (s ! k) \<le> hi)"

definition DecodeRune :: "string \<Rightarrow> int \<times> nat" where
  "DecodeRune s =
     (case s of
        [] \<Rightarrow> (RuneError, 0)
      | c # cs \<Rightarrow>
          let b0 = ord c;
              b1 = ord (s ! 1) mod 64; b2 = ord (s ! 2) mod 64; b3 = ord (s ! 3) mod 64
          in if b0 < 128 then (b0, 1)
             else if 194 \<le> b0 \<and> b0 \<le> 223 \<and> cont s 1 128 191 then ((b0 mod 32) * 64 + b1, 2)
             else if 224 \<le> b0 \<and> b0 \<le> 239
                     \<and> cont s 1 (if b0 = 224 then 160 else 128) (if b0 = 237 then 159 else 191)
                     \<and> cont s 2 128 191
               then ((b0 mod 16) * 4096 + b1 * 64 + b2, 3)
             else if 240 \<le> b0 \<and> b0 \<le> 244
                     \<and> cont s 1 (if b0 = 240 then 144 else 128) (if b0 = 244 then 143 else 191)
                     \<and> cont s 2 128 191 \<and> cont s 3 128 191
               then ((b0 mod 8) * 262144 + b1 * 4096 + b2 * 64 + b3, 4)
             else (RuneError, 1))"

definition ValidRune :: "int \<Rightarrow> bool" where
  "ValidRune r = (0 \<le> r \<and> r < 55296 \<or> 57343 < r \<and> r \<le> 1114111)"

definition EncodeRune :: "int \<Rightarrow> string" where
  "EncodeRune r0 =
     (let r = (if ValidRune r0 then r0 else RuneError)
      in if r < 128 then [char_of r]
         else if r < 2048 then [char_of (192 + r div 64), char_of (128 + r mod 64)]
         else if r < 65536 then
           [char_of (224 + r div 4096), char_of (128 + r div 64 mod 64), char_of (128 + r mod 64)]
         else
           [char_of (240 + r div 262144), char_of (128 + r div 4096 mod 64),
            char_of (128 + r div 64 mod 64), char_of (128 + r mod 64)])"

text \<open>A character as the scanner reads it: the code point and the bytes it was decoded
  from. \<open>chars_of\<close> decodes a whole byte sequence.\<close>

type_synonym uchar = "int \<times> string"

fun chars_of :: "string \<Rightarrow> uchar list" where
  "chars_of [] = []"
| "chars_of (c # cs) =
     (case DecodeRune (c # cs) of
        (r, n) \<Rightarrow> (r, c # take (n - 1) cs) # chars_of (drop (n - 1) cs))"

definition bytes_of :: "uchar list \<Rightarrow> string" where
  "bytes_of cs = concat (map snd cs)"

subsection \<open>Token classes and positions of text/scanner\<close>

text \<open>
  \<open>Scan\<close> returns a rune: a negative constant for a token class, or the character itself.
  The model has one constructor for each class and \<open>Rune\<close> for a character.
\<close>

datatype token = EOF | Ident | Int_tok | Float | Char_tok | String | RawString | Comment | Rune int

record Position =
  Filename :: string
  Line :: nat
  Column :: nat

fun itoa :: "nat \<Rightarrow> string" where
  "itoa n = (if n < 10 then [''0123456789'' ! n] else itoa (n div 10) @ [''0123456789'' ! (n mod 10)])"

declare itoa.simps [simp del]

definition Position_String :: "Position \<Rightarrow> string" where
  "Position_String ps =
     (let s = (if Filename ps = [] then ''<input>'' else Filename ps)
      in if 0 < Line ps then s @ '':'' @ itoa (Line ps) @ '':'' @ itoa (Column ps) else s)"

text \<open>
  \<open>TokenString\<close> names a class, and prints a character with the verb \<open>%q\<close>, that is
  \<open>strconv.Quote\<close> of the character converted to a string; the conversion turns a
  value that is no code point into U+FFFD.
\<close>

definition hex_digits :: "nat \<Rightarrow> int \<Rightarrow> string" where
  "hex_digits n r = map (\<lambda>k. ''0123456789abcdef'' ! nat (r div 16 ^ k mod 16)) (rev [0..<n])"

definition quote_rune :: "unicode \<Rightarrow> int \<Rightarrow> string" where
  "quote_rune U r =
     (if r = ord (CHR 0x22) \<or> r = ord (CHR 0x5C) then [CHR 0x5C, char_of r]
      else if isPrint U r then EncodeRune r
      else if r = 7 then [CHR 0x5C, CHR ''a'']
      else if r = 8 then [CHR 0x5C, CHR ''b'']
      else if r = 12 then [CHR 0x5C, CHR ''f'']
      else if r = 10 then [CHR 0x5C, CHR ''n'']
      else if r = 13 then [CHR 0x5C, CHR ''r'']
      else if r = 9 then [CHR 0x5C, CHR ''t'']
      else if r = 11 then [CHR 0x5C, CHR ''v'']
      else if r < 32 \<or> r = 127 then [CHR 0x5C, CHR ''x''] @ hex_digits 2 r
      else if r < 65536 then [CHR 0x5C, CHR ''u''] @ hex_digits 4 r
      else [CHR 0x5C, CHR ''U''] @ hex_digits 8 r)"

fun TokenString :: "unicode \<Rightarrow> token \<Rightarrow> string" where
  "TokenString U EOF = ''EOF''"
| "TokenString U Ident = ''Ident''"
| "TokenString U Int_tok = ''Int''"
| "TokenString U Float = ''Float''"
| "TokenString U Char_tok = ''Char''"
| "TokenString U String = ''String''"
| "TokenString U RawString = ''RawString''"
| "TokenString U Comment = ''Comment''"
| "TokenString U (Rune r) =
     [CHR 0x22] @ quote_rune U (if ValidRune r then r else RuneError) @ [CHR 0x22]"

subsection \<open>The scanner\<close>

text \<open>
  The functions of \<open>text/scanner\<close> in the mode the parser uses: \<open>Mode\<close> is \<open>GoTokens\<close>
  (identifiers, numbers, character, string and raw string literals; comments are skipped)
  and the error callback does nothing. Each function that scans part of a token takes the
  characters from its first one on and returns the characters that remain.
\<close>

definition isHex :: "int \<Rightarrow> bool" where
  "isHex ch = (isDecimal ch \<or> ord (CHR ''a'') \<le> ch \<and> ch \<le> ord (CHR ''f'')
               \<or> ord (CHR ''A'') \<le> ch \<and> ch \<le> ord (CHR ''F''))"

definition isOctal :: "int \<Rightarrow> bool" where
  "isOctal ch = (ord (CHR ''0'') \<le> ch \<and> ch \<le> ord (CHR ''7''))"

definition isIdentRune :: "unicode \<Rightarrow> int \<Rightarrow> nat \<Rightarrow> bool" where
  "isIdentRune U ch i = (ch = ord (CHR ''_'') \<or> isLetter U ch \<or> isDigit U ch \<and> 0 < i)"

definition scanIdentifier :: "unicode \<Rightarrow> uchar list \<Rightarrow> uchar list" where
  "scanIdentifier U cs = dropWhile (\<lambda>(ch, b). isIdentRune U ch 1) (tl cs)"

definition digits :: "nat \<Rightarrow> uchar list \<Rightarrow> uchar list" where
  "digits base cs =
     (if base \<le> 10 then dropWhile (\<lambda>(ch, b). isDecimal ch \<or> ch = ord (CHR ''_'')) cs
      else dropWhile (\<lambda>(ch, b). isHex ch \<or> ch = ord (CHR ''_'')) cs)"

text \<open>\<open>peek_is cs xs\<close>: the next character is one of the ASCII characters \<open>xs\<close>.\<close>

definition peek_is :: "uchar list \<Rightarrow> string \<Rightarrow> bool" where
  "peek_is cs xs = (case cs of [] \<Rightarrow> False | (ch, b) # _ \<Rightarrow> ch \<in> set (map ord xs))"

definition number_prefix :: "uchar list \<Rightarrow> nat \<times> uchar list" where
  "number_prefix cs =
     (if peek_is cs ''0'' then
        (if peek_is (tl cs) ''xX'' then (16, tl (tl cs))
         else if peek_is (tl cs) ''oO'' then (8, tl (tl cs))
         else if peek_is (tl cs) ''bB'' then (2, tl (tl cs))
         else (8, tl cs))
      else (10, cs))"

definition scanExponent :: "token \<Rightarrow> uchar list \<Rightarrow> token \<times> uchar list" where
  "scanExponent tok cs =
     (if peek_is cs ''eEpP'' then
        (Float, digits 10 (if peek_is (tl cs) ''+-'' then tl (tl cs) else tl cs))
      else (tok, cs))"

definition scanFraction :: "nat \<Rightarrow> uchar list \<Rightarrow> token \<times> uchar list" where
  "scanFraction base cs = scanExponent Float (digits base cs)"

definition scanNumber :: "uchar list \<Rightarrow> bool \<Rightarrow> token \<times> uchar list" where
  "scanNumber cs seenDot =
     (if seenDot then scanFraction 10 cs
      else
        let (base, cs1) = number_prefix cs;
            cs2 = digits base cs1
        in if peek_is cs2 ''.'' then scanFraction base (tl cs2)
           else scanExponent Int_tok cs2)"

fun scanDigits :: "uchar list \<Rightarrow> nat \<Rightarrow> nat \<Rightarrow> uchar list" where
  "scanDigits cs base 0 = cs"
| "scanDigits [] base (Suc n) = []"
| "scanDigits ((ch, b) # cs) base (Suc n) =
     (if (if base \<le> 8 then isOctal ch else isHex ch) then scanDigits cs base n else (ch, b) # cs)"

definition scanEscape :: "int \<Rightarrow> uchar list \<Rightarrow> uchar list" where
  "scanEscape quote cs =
     (case cs of
        [] \<Rightarrow> []
      | (ch, b) # cs' \<Rightarrow>
          if ch \<in> set (map ord ''abfnrtv'') \<or> ch = ord (CHR 0x5C) \<or> ch = quote then cs'
          else if isOctal ch then scanDigits cs 8 3
          else if ch = ord (CHR ''x'') then scanDigits cs' 16 2
          else if ch = ord (CHR ''u'') then scanDigits cs' 16 4
          else if ch = ord (CHR ''U'') then scanDigits cs' 16 8
          else cs)"

lemma length_scanDigits: "length (scanDigits cs base n) \<le> length cs"
  by (induction cs base n rule: scanDigits.induct) auto

lemma length_scanEscape: "length (scanEscape quote cs) \<le> length cs"
proof (cases cs)
  case Nil
  then show ?thesis by (simp add: scanEscape_def)
next
  case (Cons c cs')
  obtain ch b where c: "c = (ch, b)" by (cases c)
  have "length (scanDigits cs 8 3) \<le> length cs" "length (scanDigits cs' 16 2) \<le> length cs"
    "length (scanDigits cs' 16 4) \<le> length cs" "length (scanDigits cs' 16 8) \<le> length cs"
    using length_scanDigits [of cs 8 3] length_scanDigits [of cs' 16 2]
      length_scanDigits [of cs' 16 4] length_scanDigits [of cs' 16 8] Cons by simp_all
  then show ?thesis by (simp add: scanEscape_def Cons c del: scanDigits.simps set_map list.map)
qed

text \<open>\<open>scanString\<close> stops at the closing quote, at a newline or at the end of the source;
  \<open>Scan\<close> then reads one more character.\<close>

function scanString :: "int \<Rightarrow> uchar list \<Rightarrow> uchar list" where
  "scanString quote [] = []"
| "scanString quote ((ch, b) # cs) =
     (if ch = quote then (ch, b) # cs
      else if ch = ord (CHR 0x0A) then (ch, b) # cs
      else if ch = ord (CHR 0x5C) then scanString quote (scanEscape quote cs)
      else scanString quote cs)"
  by pat_completeness auto
termination
  by (relation "measure (\<lambda>(quote, cs). length cs)")
    (auto simp: less_Suc_eq_le length_scanEscape)

definition scanRawString :: "uchar list \<Rightarrow> uchar list" where
  "scanRawString cs = dropWhile (\<lambda>(ch, b). ch \<noteq> ord (CHR 0x60)) cs"

fun scanGeneralComment :: "uchar list \<Rightarrow> uchar list" where
  "scanGeneralComment [] = []"
| "scanGeneralComment ((ch0, b) # cs) =
     (if ch0 = ord (CHR ''*'') \<and> peek_is cs ''/'' then tl cs else scanGeneralComment cs)"

definition scanComment :: "uchar list \<Rightarrow> uchar list" where
  "scanComment cs =
     (if peek_is cs ''/'' then dropWhile (\<lambda>(ch, b). ch \<noteq> ord (CHR 0x0A)) (tl cs)
      else scanGeneralComment (tl cs))"

lemma length_scanGeneralComment: "length (scanGeneralComment cs) \<le> length cs"
  by (induction cs rule: scanGeneralComment.induct) auto

lemma length_scanComment: "length (scanComment cs) \<le> length cs"
proof (cases "peek_is cs ''/''")
  case True
  have "length (dropWhile (\<lambda>(ch, b). ch \<noteq> ord (CHR 0x0A)) (tl cs)) \<le> length (tl cs)"
    by (rule length_dropWhile_le)
  with True show ?thesis by (simp add: scanComment_def)
next
  case False
  have "length (scanGeneralComment (tl cs)) \<le> length (tl cs)"
    by (rule length_scanGeneralComment)
  with False show ?thesis by (simp add: scanComment_def)
qed

text \<open>The set of white space is a bit mask over the characters below 64.\<close>

definition GoWhitespace :: "64 word" where
  "GoWhitespace = push_bit 9 1 OR push_bit 10 1 OR push_bit 13 1 OR push_bit 32 1"

definition isWhitespace :: "64 word \<Rightarrow> uchar \<Rightarrow> bool" where
  "isWhitespace ws c = (fst c < 64 \<and> bit ws (nat (fst c)))"

text \<open>
  The body of \<open>Scan\<close>: skip white space, then decide the token by its first character.
  The result is the token, the characters from the start of the token on, and the
  characters after it. After a comment the scan starts over.
\<close>

function scan_token :: "unicode \<Rightarrow> 64 word \<Rightarrow> uchar list \<Rightarrow> token \<times> uchar list \<times> uchar list" where
  "scan_token U ws cs0 =
     (case dropWhile (isWhitespace ws) cs0 of
        [] \<Rightarrow> (EOF, [], [])
      | (ch, b) # cs \<Rightarrow>
          if isIdentRune U ch 0 then (Ident, (ch, b) # cs, scanIdentifier U ((ch, b) # cs))
          else if isDecimal ch then
            (case scanNumber ((ch, b) # cs) False of (tok, rest) \<Rightarrow> (tok, (ch, b) # cs, rest))
          else if ch = ord (CHR 0x22) then (String, (ch, b) # cs, tl (scanString ch cs))
          else if ch = ord (CHR 0x27) then (Char_tok, (ch, b) # cs, tl (scanString ch cs))
          else if ch = ord (CHR ''.'') then
            (if peek_is cs ''0123456789'' then
               (case scanNumber cs True of (tok, rest) \<Rightarrow> (tok, (ch, b) # cs, rest))
             else (Rune ch, (ch, b) # cs, cs))
          else if ch = ord (CHR ''/'') then
            (if peek_is cs ''/*'' then scan_token U ws (scanComment cs)
             else (Rune ch, (ch, b) # cs, cs))
          else if ch = ord (CHR 0x60) then (RawString, (ch, b) # cs, tl (scanRawString cs))
          else (Rune ch, (ch, b) # cs, cs))"
  by pat_completeness auto
termination
proof (relation "measure (\<lambda>(U, ws, cs). length cs)", goal_cases)
  case 1
  show ?case by simp
next
  case (2 U ws cs0 c cs ch b)
  have "length (c # cs) \<le> length cs0"
    unfolding 2(1) [symmetric] by (rule length_dropWhile_le)
  moreover have "length (scanComment cs) \<le> length cs"
    by (rule length_scanComment)
  ultimately show ?case by simp
qed

declare scan_token.simps [simp del]

text \<open>
  The scanner state: the characters not yet consumed (the first of them is the look-ahead
  character of the Go scanner), whether a character has been read, the line and column
  of the first unconsumed character, the white space set, the position of the last token
  and its text. Columns count characters, not bytes.
\<close>

record Scanner =
  src :: "uchar list"
  started :: bool
  line :: nat
  column :: nat
  Whitespace :: "64 word"
  Position :: Position
  tokText :: string

fun advance :: "nat \<times> nat \<Rightarrow> uchar list \<Rightarrow> nat \<times> nat" where
  "advance lc [] = lc"
| "advance (l, c) ((ch, b) # cs) = advance (if ch = ord (CHR 0x0A) then (l + 1, 1) else (l, c + 1)) cs"

text \<open>\<open>Init\<close> resets the source and the position counters, the white space set and the
  token position; it keeps the file name.\<close>

definition Init :: "Scanner \<Rightarrow> string \<Rightarrow> Scanner" where
  "Init s r = s\<lparr>src := chars_of r, started := False, line := 1, column := 1,
                Whitespace := GoWhitespace,
                Position := (Position s)\<lparr>Line := 0\<rparr>, tokText := []\<rparr>"

text \<open>The first read of a character, in \<open>Peek\<close>, skips a byte order mark (U+FEFF) at the
  start of the source. \<open>Scan\<close> and \<open>Next\<close> begin with \<open>Peek\<close>.\<close>

definition first_read :: "Scanner \<Rightarrow> Scanner" where
  "first_read s =
     (if started s then s
      else
        case src s of
          [] \<Rightarrow> s\<lparr>started := True\<rparr>
        | (ch, b) # cs \<Rightarrow>
            if ch = 65279 then s\<lparr>src := cs, column := column s + 1, started := True\<rparr>
            else s\<lparr>started := True\<rparr>)"

text \<open>
  \<open>Scan\<close>. The token position is the line and column of the first character of the
  token, and for \<open>EOF\<close> the position after the last character; on an empty source no
  character is ever read and the position stays the invalid one, line 0.
\<close>

definition Scan :: "unicode \<Rightarrow> Scanner \<Rightarrow> token \<times> Scanner" where
  "Scan U s =
     (let s0 = first_read s;
          (tok, start, rest) = scan_token U (Whitespace s0) (src s0);
          (l1, c1) = advance (line s0, column s0) (take (length (src s0) - length start) (src s0));
          text = take (length start - length rest) start;
          (l2, c2) = advance (l1, c1) text;
          (pl, pc) = (if tok = EOF \<and> l1 = 1 \<and> c1 = 1 then (0, 0) else (l1, c1))
      in (tok, s0\<lparr>src := rest, line := l2, column := c2,
                    Position := (Position s0)\<lparr>Line := pl, Column := pc\<rparr>,
                    tokText := bytes_of text\<rparr>))"

definition TokenText :: "Scanner \<Rightarrow> string" where
  "TokenText s = tokText s"

definition Peek :: "Scanner \<Rightarrow> token" where
  "Peek s = (case src (first_read s) of [] \<Rightarrow> EOF | (ch, b) # cs \<Rightarrow> Rune ch)"

definition Next :: "Scanner \<Rightarrow> Scanner" where
  "Next s =
     (let s0 = first_read s
      in case src s0 of
           [] \<Rightarrow> s0\<lparr>Position := (Position s0)\<lparr>Line := 0\<rparr>, tokText := []\<rparr>
         | c # cs \<Rightarrow>
             (case advance (line s0, column s0) [c] of
                (l, k) \<Rightarrow> s0\<lparr>src := cs, line := l, column := k,
                              Position := (Position s0)\<lparr>Line := 0\<rparr>, tokText := []\<rparr>))"

subsection \<open>strconv and strings\<close>

definition unhex :: "char \<Rightarrow> int option" where
  "unhex c =
     (if isDecimal (ord c) then Some (ord c - 48)
      else if ord (CHR ''a'') \<le> ord c \<and> ord c \<le> ord (CHR ''f'') then Some (ord c - 87)
      else if ord (CHR ''A'') \<le> ord c \<and> ord c \<le> ord (CHR ''F'') then Some (ord c - 55)
      else None)"

fun unhex_all :: "int \<Rightarrow> string \<Rightarrow> int option" where
  "unhex_all v [] = Some v"
| "unhex_all v (c # s) = (case unhex c of None \<Rightarrow> None | Some x \<Rightarrow> unhex_all (16 * v + x) s)"

text \<open>
  \<open>UnquoteChar\<close> decodes the first character or escape sequence of \<open>s\<close>. The library
  returns the value and the tail of \<open>s\<close>; the model returns the bytes that \<open>Unquote\<close>
  appends for the value, and how many bytes after the first one were consumed, so that
  the tail is \<open>drop (Suc n) s\<close>.
\<close>

definition unquote_escape :: "char \<Rightarrow> char \<Rightarrow> string \<Rightarrow> (string \<times> nat) option" where
  "unquote_escape e quote s =
     (if e = CHR ''a'' then Some ([CHR 0x07], 1)
      else if e = CHR ''b'' then Some ([CHR 0x08], 1)
      else if e = CHR ''f'' then Some ([CHR 0x0C], 1)
      else if e = CHR ''n'' then Some ([CHR 0x0A], 1)
      else if e = CHR ''r'' then Some ([CHR 0x0D], 1)
      else if e = CHR ''t'' then Some ([CHR 0x09], 1)
      else if e = CHR ''v'' then Some ([CHR 0x0B], 1)
      else if e = CHR ''x'' then
        (if length s < 2 then None
         else case unhex_all 0 (take 2 s) of None \<Rightarrow> None | Some v \<Rightarrow> Some ([char_of v], 3))
      else if e = CHR ''u'' \<or> e = CHR ''U'' then
        (let n = (if e = CHR ''u'' then 4 else 8)
         in if length s < n then None
            else case unhex_all 0 (take n s) of
                   None \<Rightarrow> None
                 | Some v \<Rightarrow> if ValidRune v then Some (EncodeRune v, Suc n) else None)
      else if isOctal (ord e) then
        (if 2 \<le> length s \<and> isOctal (ord (s ! 0)) \<and> isOctal (ord (s ! 1)) then
           (let v = ((ord e - 48) * 8 + (ord (s ! 0) - 48)) * 8 + (ord (s ! 1) - 48)
            in if 255 < v then None else Some ([char_of v], 3))
         else None)
      else if e = CHR 0x5C then Some ([CHR 0x5C], 1)
      else if e = CHR 0x27 \<or> e = CHR 0x22 then (if e \<noteq> quote then None else Some ([e], 1))
      else None)"

definition UnquoteChar :: "string \<Rightarrow> char \<Rightarrow> (string \<times> nat) option" where
  "UnquoteChar s quote =
     (case s of
        [] \<Rightarrow> None
      | c # s1 \<Rightarrow>
          if c = quote \<and> (quote = CHR 0x27 \<or> quote = CHR 0x22) then None
          else if 128 \<le> ord c then
            (case DecodeRune s of (r, w) \<Rightarrow> Some (EncodeRune r, w - 1))
          else if c \<noteq> CHR 0x5C then Some ([c], 0)
          else (case s1 of [] \<Rightarrow> None | e # s2 \<Rightarrow> unquote_escape e quote s2))"

function unquote_loop :: "char \<Rightarrow> string \<Rightarrow> string option" where
  "unquote_loop quote s =
     (if s = [] then Some []
      else
        case UnquoteChar s quote of
          None \<Rightarrow> None
        | Some (bs, n) \<Rightarrow>
            if quote = CHR 0x27 \<and> drop (Suc n) s \<noteq> [] then None
            else map_option (\<lambda>buf. bs @ buf) (unquote_loop quote (drop (Suc n) s)))"
  by pat_completeness auto
termination
  by (relation "measure (\<lambda>(quote, s). length s)") auto

declare unquote_loop.simps [simp del]

text \<open>\<open>Unquote\<close> of a string, character or raw string literal.\<close>

definition Unquote :: "string \<Rightarrow> string option" where
  "Unquote s =
     (if length s < 2 then None
      else
        let quote = hd s; body = butlast (tl s)
        in if quote \<noteq> last s then None
           else if quote = CHR 0x60 then
             (if CHR 0x60 \<in> set body then None else Some (filter (\<lambda>c. c \<noteq> CHR 0x0D) body))
           else if quote \<noteq> CHR 0x22 \<and> quote \<noteq> CHR 0x27 then None
           else if CHR 0x0A \<in> set body then None
           else unquote_loop quote body)"

text \<open>
  \<open>ParseUint\<close> in base 10 with 64 bits. \<open>None\<close> is a syntax error; the flag of a
  result says that the value is out of range, in which case the loop has stopped at the
  digit that overflows and has not looked at the bytes after it.
\<close>

fun ParseUint_loop :: "int \<Rightarrow> string \<Rightarrow> (int \<times> bool) option" where
  "ParseUint_loop n [] = Some (n, False)"
| "ParseUint_loop n (c # cs) =
     (if \<not> isDecimal (ord c) then None
      else if 1844674407370955162 \<le> n then Some (18446744073709551615, True)
      else
        let n1 = n * 10 + (ord c - 48)
        in if 18446744073709551615 < n1 then Some (18446744073709551615, True)
           else ParseUint_loop n1 cs)"

definition ParseUint :: "string \<Rightarrow> (int \<times> bool) option" where
  "ParseUint s = (if s = [] then None else ParseUint_loop 0 s)"

text \<open>
  \<open>Atoi\<close>, of which the parser keeps the value and drops the error: 0 after a syntax
  error, the nearest bound of \<open>int\<close> after a range error. The fast path that \<open>Atoi\<close>
  takes for fewer than 19 bytes computes the same value.
\<close>

definition Atoi :: "string \<Rightarrow> 64 word" where
  "Atoi s =
     (if s = [] then 0
      else
        let neg = (hd s = CHR ''-'');
            ds = (if hd s = CHR ''+'' \<or> hd s = CHR ''-'' then tl s else s)
        in case ParseUint ds of
             None \<Rightarrow> 0
           | Some (un, out_of_range) \<Rightarrow>
               if \<not> neg \<and> 9223372036854775808 \<le> un then 9223372036854775807
               else if neg \<and> 9223372036854775808 < un then - 9223372036854775808
               else if neg then - of_int un else of_int un)"

fun Split :: "string \<Rightarrow> char \<Rightarrow> string list" where
  "Split [] sep = [[]]"
| "Split (c # cs) sep =
     (if c = sep then [] # Split cs sep
      else case Split cs sep of [] \<Rightarrow> [[c]] | part # parts \<Rightarrow> (c # part) # parts)"

text \<open>\<open>TrimSpace\<close> removes the leading and trailing characters that are Unicode white
  space; a byte that is no well-formed character is not white space.\<close>

definition TrimSpace :: "string \<Rightarrow> string" where
  "TrimSpace s =
     bytes_of (rev (dropWhile (\<lambda>(ch, b). IsSpace ch)
       (rev (dropWhile (\<lambda>(ch, b). IsSpace ch) (chars_of s)))))"

section \<open>The tag parser (parse.go)\<close>

record tagsParser =
  errors :: "string list"
  scanner :: Scanner
  pos :: Position
  tok :: token
  lit :: string

record tag =
  name :: string
  attrs :: "string \<rightharpoonup> string"

definition next_tok :: "unicode \<Rightarrow> tagsParser \<Rightarrow> tagsParser" where
  "next_tok U p =
     (let (t, s) = Scan U (scanner p)
      in p\<lparr>tok := t, scanner := s, pos := Position s, lit := TokenText s\<rparr>)"

definition newError :: "Position \<Rightarrow> string \<Rightarrow> string" where
  "newError ps msg = Position_String ps @ '': '' @ msg"

definition error :: "tagsParser \<Rightarrow> string \<Rightarrow> tagsParser" where
  "error p err = p\<lparr>errors := errors p @ [err]\<rparr>"

definition errorExpected :: "unicode \<Rightarrow> tagsParser \<Rightarrow> string \<Rightarrow> tagsParser" where
  "errorExpected U p msg =
     error p (newError (pos p) (''expected '' @ msg @ '', found '' @ TokenString U (tok p)))"

definition expect :: "unicode \<Rightarrow> tagsParser \<Rightarrow> token \<Rightarrow> string \<Rightarrow> tagsParser" where
  "expect U p t msg = next_tok U (if tok p \<noteq> t then errorExpected U p msg else p)"

text \<open>What is left to scan, for the termination of the loops: the unconsumed characters,
  and one more while the current token is not \<open>EOF\<close>.\<close>

definition remaining :: "tagsParser \<Rightarrow> nat" where
  "remaining p = length (src (scanner p)) + (if tok p = EOF then 0 else 1)"

lemma length_digits: "length (digits base cs) \<le> length cs"
  by (simp add: digits_def length_dropWhile_le)

lemma length_scanExponent: "length (snd (scanExponent t cs)) \<le> length cs"
proof -
  have "length (digits 10 (tl (tl cs))) \<le> length cs" "length (digits 10 (tl cs)) \<le> length cs"
    using length_digits [of 10 "tl (tl cs)"] length_digits [of 10 "tl cs"] by simp_all
  then show ?thesis by (simp add: scanExponent_def)
qed

lemma length_scanFraction: "length (snd (scanFraction base cs)) \<le> length cs"
  unfolding scanFraction_def
  by (rule order_trans [OF length_scanExponent length_digits])

lemma int_part_shorter:
  assumes "isDecimal ch"
  shows "length (digits (fst (number_prefix ((ch, b) # cs))) (snd (number_prefix ((ch, b) # cs))))
           \<le> length cs"
proof (cases "ch = ord (CHR ''0'')")
  case True
  then have "length (snd (number_prefix ((ch, b) # cs))) \<le> length cs"
    by (simp add: number_prefix_def peek_is_def)
  then show ?thesis by (rule order_trans [OF length_digits])
next
  case False
  then have "number_prefix ((ch, b) # cs) = (10, (ch, b) # cs)"
    by (simp add: number_prefix_def peek_is_def)
  with assms show ?thesis by (simp add: digits_def length_dropWhile_le)
qed

lemma scanNumber_shorter:
  assumes "isDecimal ch"
  shows "length (snd (scanNumber ((ch, b) # cs) False)) \<le> length cs"
proof -
  obtain base cs1 where np: "number_prefix ((ch, b) # cs) = (base, cs1)"
    by (cases "number_prefix ((ch, b) # cs)")
  define cs2 where "cs2 = digits base cs1"
  have l2: "length cs2 \<le> length cs"
    using int_part_shorter [OF assms, of b cs] by (simp add: np cs2_def)
  have "length (snd (scanFraction base (tl cs2))) \<le> length cs"
    using length_scanFraction [of base "tl cs2"] l2 by simp
  moreover have "length (snd (scanExponent Int_tok cs2)) \<le> length cs"
    using length_scanExponent [of Int_tok cs2] l2 by simp
  ultimately show ?thesis by (simp add: scanNumber_def np cs2_def [symmetric])
qed

lemma length_scanString: "length (scanString quote cs) \<le> length cs"
proof (induction quote cs rule: scanString.induct)
  case (1 quote)
  show ?case by simp
next
  case (2 quote ch b cs)
  have "length (scanEscape quote cs) \<le> length cs" by (rule length_scanEscape)
  with 2 show ?case by auto
qed

lemma scan_token_shorter:
  "scan_token U ws cs0 = (t, start, rest) \<Longrightarrow>
     length rest \<le> length cs0 \<and> (t \<noteq> EOF \<longrightarrow> length rest < length cs0)"
proof (induction U ws cs0 arbitrary: t start rest rule: scan_token.induct)
  case (1 U ws cs0)
  show ?case
  proof (cases "dropWhile (isWhitespace ws) cs0")
    case Nil
    with "1.prems" show ?thesis by (simp add: scan_token.simps)
  next
    case (Cons c cs)
    obtain ch b where c: "c = (ch, b)" by (cases c)
    note Cons = Cons [unfolded c]
    have l0: "length cs < length cs0"
      using length_dropWhile_le [of "isWhitespace ws" cs0] by (simp add: Cons)
    have lnum: "isDecimal ch \<Longrightarrow> length (snd (scanNumber ((ch, b) # cs) False)) \<le> length cs"
      by (rule scanNumber_shorter)
    have lfrac: "length (snd (scanNumber cs True)) \<le> length cs"
      by (simp add: scanNumber_def length_scanFraction)
    have lid: "length (scanIdentifier U ((ch, b) # cs)) \<le> length cs"
      by (simp add: scanIdentifier_def length_dropWhile_le)
    have lstr: "length (tl (scanString ch cs)) \<le> length cs"
      using length_scanString [of ch cs] by simp
    have lraw: "length (tl (scanRawString cs)) \<le> length cs"
      using length_dropWhile_le [of "\<lambda>(ch, b). ch \<noteq> ord (CHR 0x60)" cs]
      by (simp add: scanRawString_def)
    have lcom: "length (scanComment cs) \<le> length cs" by (rule length_scanComment)
    show ?thesis
    proof (cases "\<not> isIdentRune U ch 0 \<and> \<not> isDecimal ch \<and> ch = ord (CHR ''/'') \<and> peek_is cs ''/*''")
      case True
      then have "scan_token U ws cs0 = scan_token U ws (scanComment cs)"
        by (subst scan_token.simps)
          (simp add: Cons isIdentRune_def isLetter_def isDigit_def isDecimal_def)
      with "1.prems" have "scan_token U ws (scanComment cs) = (t, start, rest)" by simp
      moreover from True have "ch \<noteq> ord (CHR 0x22)" "ch \<noteq> ord (CHR 0x27)" "ch \<noteq> ord (CHR ''.'')"
        by simp_all
      ultimately have "length rest \<le> length (scanComment cs)"
        using "1.IH" [of "(ch, b)" cs ch b t start rest] Cons True by blast
      with lcom l0 show ?thesis by simp
    next
      case False
      with "1.prems" l0 lnum lfrac lid lstr lraw show ?thesis
        by (subst (asm) scan_token.simps)
          (auto simp: Cons split: if_split_asm prod.split_asm)
    qed
  qed
qed

lemma length_src_first_read: "length (src (first_read s)) \<le> length (src s)"
  by (simp add: first_read_def split: list.splits prod.splits)

lemma Scan_shorter:
  "Scan U s = (t, s') \<Longrightarrow>
     length (src s') \<le> length (src s) \<and> (t \<noteq> EOF \<longrightarrow> length (src s') < length (src s))"
  using scan_token_shorter [of U "Whitespace (first_read s)" "src (first_read s)"]
    length_src_first_read [of s]
  by (auto simp: Scan_def Let_def split: prod.split_asm)

lemma remaining_next_tok: "remaining (next_tok U p) \<le> remaining p"
  and remaining_next_tok_less: "tok p \<noteq> EOF \<Longrightarrow> remaining (next_tok U p) < remaining p"
  using Scan_shorter [of U "scanner p"]
  by (auto simp: remaining_def next_tok_def Let_def split: prod.splits)

function parseIntList_loop :: "unicode \<Rightarrow> tagsParser \<Rightarrow> string \<Rightarrow> tagsParser \<times> string" where
  "parseIntList_loop U p sb =
     (if tok p = Int_tok \<or> tok p = Rune (ord (CHR '','')) \<or> tok p = Rune (ord (CHR ''-'')) then
        parseIntList_loop U (next_tok U p) (sb @ lit p)
      else (p, sb))"
  by pat_completeness auto
termination
  by (relation "measure (\<lambda>(U, p, sb). remaining p)") (auto intro: remaining_next_tok_less)

declare parseIntList_loop.simps [simp del]

definition parseIntList :: "unicode \<Rightarrow> tagsParser \<Rightarrow> tagsParser \<times> string" where
  "parseIntList U p = parseIntList_loop U p []"

text \<open>
  One iteration of the attribute loop of \<open>parse\<close>. When \<open>Unquote\<close> fails, the source
  sets \<open>p.tok\<close> to the newline and continues, which ends the loop: nothing is recorded and
  the attribute is not stored.
\<close>

definition parse_attr ::
  "unicode \<Rightarrow> tagsParser \<Rightarrow> (string \<rightharpoonup> string) \<Rightarrow> tagsParser \<times> (string \<rightharpoonup> string)"
where
  "parse_attr U p amap =
     (let attrName = lit p;
          p1 = expect U p Ident ''attribute name'';
          p2 = expect U p1 (Rune (ord (CHR ''=''))) ''\"=\"''
      in if tok p2 = String then
           (case Unquote (lit p2) of
              None \<Rightarrow> (p2\<lparr>tok := Rune (ord (CHR 0x0A))\<rparr>, amap)
            | Some v \<Rightarrow>
                (if Peek (scanner p2) = Rune (ord (CHR 0x22)) then
                   (next_tok U (p2\<lparr>scanner := Next (scanner p2)\<rparr>),
                    amap(attrName \<mapsto> v @ [CHR 0x22]))
                 else (next_tok U p2, amap(attrName \<mapsto> v))))
         else if tok p2 = Int_tok \<or> tok p2 = Rune (ord (CHR ''-'')) then
           (case parseIntList U p2 of (p3, val) \<Rightarrow> (p3, amap(attrName \<mapsto> val)))
         else
           (errorExpected U p2 ''string or integer attribute value'', amap(attrName \<mapsto> [])))"

lemma remaining_parseIntList_loop: "remaining (fst (parseIntList_loop U p sb)) \<le> remaining p"
proof (induction U p sb rule: parseIntList_loop.induct)
  case (1 U p sb)
  show ?case
  proof (cases "tok p = Int_tok \<or> tok p = Rune (ord (CHR '','')) \<or> tok p = Rune (ord (CHR ''-''))")
    case True
    with 1 have "remaining (fst (parseIntList_loop U (next_tok U p) (sb @ lit p)))
        \<le> remaining (next_tok U p)"
      by simp
    also have "\<dots> \<le> remaining p" by (rule remaining_next_tok)
    finally show ?thesis using True by (subst parseIntList_loop.simps) simp
  next
    case False
    then show ?thesis by (subst parseIntList_loop.simps) simp
  qed
qed

lemma remaining_errorExpected [simp]: "remaining (errorExpected U p msg) = remaining p"
  by (simp add: remaining_def errorExpected_def error_def)

lemma tok_errorExpected [simp]: "tok (errorExpected U p msg) = tok p"
  by (simp add: errorExpected_def error_def)

lemma remaining_expect: "remaining (expect U p t msg) \<le> remaining p"
  and remaining_expect_less: "tok p \<noteq> EOF \<Longrightarrow> remaining (expect U p t msg) < remaining p"
  using remaining_next_tok [of U p] remaining_next_tok [of U "errorExpected U p msg"]
    remaining_next_tok_less [of p U] remaining_next_tok_less [of "errorExpected U p msg" U]
  by (auto simp: expect_def)

lemma remaining_Next: "remaining (p\<lparr>scanner := Next (scanner p)\<rparr>) \<le> remaining p"
proof -
  have "length (src (Next (scanner p))) \<le> length (src (first_read (scanner p)))"
    by (simp add: Next_def Let_def split: list.splits prod.splits)
  also have "\<dots> \<le> length (src (scanner p))" by (rule length_src_first_read)
  finally show ?thesis by (simp add: remaining_def)
qed

lemma remaining_parse_attr:
  assumes "tok p \<noteq> EOF"
  shows "remaining (fst (parse_attr U p amap)) < remaining p"
proof -
  define p1 where "p1 = expect U p Ident ''attribute name''"
  define p2 where "p2 = expect U p1 (Rune (ord (CHR ''=''))) ''\"=\"''"
  have "remaining p1 < remaining p"
    unfolding p1_def using assms by (rule remaining_expect_less)
  moreover have "remaining p2 \<le> remaining p1"
    unfolding p2_def by (rule remaining_expect)
  ultimately have l2: "remaining p2 < remaining p" by simp
  have a: "remaining (p2\<lparr>tok := Rune (ord (CHR 0x0A))\<rparr>) \<le> remaining p2" if "tok p2 = String"
    using that by (simp add: remaining_def)
  have b: "remaining (next_tok U (p2\<lparr>scanner := Next (scanner p2)\<rparr>)) \<le> remaining p2"
    by (rule order_trans [OF remaining_next_tok remaining_Next])
  have c: "remaining (next_tok U p2) \<le> remaining p2" by (rule remaining_next_tok)
  have d: "remaining (fst (parseIntList U p2)) \<le> remaining p2"
    unfolding parseIntList_def by (rule remaining_parseIntList_loop)
  have "remaining (fst (parse_attr U p amap)) \<le> remaining p2"
    unfolding parse_attr_def Let_def p1_def [symmetric] p2_def [symmetric]
    using a b c d by (auto split: option.splits prod.splits)
  with l2 show ?thesis by simp
qed

text \<open>The attribute loop \<open>for p.tok != '\n' && p.tok != scanner.EOF\<close>.\<close>

function parse_attrs ::
  "unicode \<Rightarrow> tagsParser \<Rightarrow> (string \<rightharpoonup> string) \<Rightarrow> tagsParser \<times> (string \<rightharpoonup> string)"
where
  "parse_attrs U p amap =
     (if tok p \<noteq> Rune (ord (CHR 0x0A)) \<and> tok p \<noteq> EOF then
        (case parse_attr U p amap of (p', amap') \<Rightarrow> parse_attrs U p' amap')
      else (p, amap))"
  by pat_completeness auto
termination
proof (relation "measure (\<lambda>(U, p, amap). remaining p)", goal_cases)
  case 1
  show ?case by simp
next
  case (2 U p amap p' amap')
  then have "tok p \<noteq> EOF" and "fst (parse_attr U p amap) = p'"
    by (simp, metis fst_conv)
  then show ?case using remaining_parse_attr [of p U amap] by simp
qed

declare parse_attrs.simps [simp del]

lemma remaining_parse_attrs: "remaining (fst (parse_attrs U p amap)) \<le> remaining p"
proof (induction U p amap rule: parse_attrs.induct)
  case (1 U p amap)
  show ?case
  proof (cases "tok p \<noteq> Rune (ord (CHR 0x0A)) \<and> tok p \<noteq> EOF")
    case True
    obtain p' amap' where pa: "parse_attr U p amap = (p', amap')" by (cases "parse_attr U p amap")
    have "remaining (fst (parse_attrs U p' amap')) \<le> remaining p'"
      using "1.IH" [OF True pa [symmetric]] .
    also have "remaining p' < remaining p"
      using remaining_parse_attr [of p U amap] True pa by simp
    finally show ?thesis using True pa by (subst parse_attrs.simps) simp
  next
    case False
    then show ?thesis by (subst parse_attrs.simps) auto
  qed
qed

text \<open>The tag loop \<open>for p.tok != scanner.EOF\<close>.\<close>

function parse_tags :: "unicode \<Rightarrow> tagsParser \<Rightarrow> tag list \<Rightarrow> tagsParser \<times> tag list" where
  "parse_tags U p tags =
     (if tok p \<noteq> EOF then
        (let tagName = lit p
         in case parse_attrs U (expect U p Ident ''tag name'') Map.empty of
              (p', amap) \<Rightarrow>
                parse_tags U (next_tok U p') (tags @ [\<lparr>name = tagName, attrs = amap\<rparr>]))
      else (p, tags))"
  by pat_completeness auto
termination
proof (relation "measure (\<lambda>(U, p, tags). remaining p)", goal_cases)
  case 1
  show ?case by simp
next
  case (2 U p tags tagName p' amap)
  have "remaining (next_tok U p') \<le> remaining p'" by (rule remaining_next_tok)
  also have "remaining p' \<le> remaining (expect U p Ident ''tag name'')"
  proof -
    from 2 have "fst (parse_attrs U (expect U p Ident ''tag name'') Map.empty) = p'"
      by (metis fst_conv)
    then show ?thesis
      using remaining_parse_attrs [of U "expect U p Ident ''tag name''" Map.empty] by simp
  qed
  also have "\<dots> < remaining p"
    using 2 by (intro remaining_expect_less) simp
  finally show ?case by simp
qed

declare parse_tags.simps [simp del]

definition Err :: "string list \<Rightarrow> string list option" where
  "Err list = (if length list = 0 then None else Some list)"

definition Error :: "string list \<Rightarrow> string" where
  "Error list = (if length list = 0 then ''no errors'' else list ! 0)"

text \<open>
  \<open>parse\<close> is a method of the parser: the model takes the receiver and returns it with
  the results. \<open>parse_init\<close> is its part before the loop. The scanner's \<open>Error\<close> callback
  is set to a function that does nothing, so what the scanner itself reports is dropped.
\<close>

definition parse_init :: "unicode \<Rightarrow> tagsParser \<Rightarrow> string \<Rightarrow> string \<Rightarrow> tagsParser" where
  "parse_init U p filename r =
     (let s0 = Init (scanner p) r;
          s1 = s0\<lparr>Position := (Position s0)\<lparr>Filename := filename\<rparr>\<rparr>;
          s2 = s1\<lparr>Whitespace := Whitespace s1 XOR push_bit 10 1\<rparr>
      in next_tok U (p\<lparr>scanner := s2\<rparr>))"

definition parse ::
  "unicode \<Rightarrow> tagsParser \<Rightarrow> string \<Rightarrow> string \<Rightarrow> tagsParser \<times> tag list \<times> string list option"
where
  "parse U p filename r =
     (case parse_tags U (parse_init U p filename r) [] of
        (p', tags) \<Rightarrow> (p', tags, Err (errors p')))"

text \<open>The zero value of \<open>tagsParser\<close>, as \<open>var p tagsParser\<close> declares it.\<close>

definition new_tagsParser :: tagsParser where
  "new_tagsParser =
     \<lparr>errors = [],
      scanner = \<lparr>src = [], started = False, line = 0, column = 0, Whitespace = 0,
                 Position = \<lparr>Filename = [], Line = 0, Column = 0\<rparr>, tokText = []\<rparr>,
      pos = \<lparr>Filename = [], Line = 0, Column = 0\<rparr>, tok = Rune 0, lit = []\<rparr>"

section \<open>The descriptor builder (parse.go)\<close>

definition stringAttr :: "tag \<Rightarrow> string \<Rightarrow> string" where
  "stringAttr t nm = (case attrs t nm of None \<Rightarrow> [] | Some v \<Rightarrow> v)"

definition intAttr :: "tag \<Rightarrow> string \<Rightarrow> goint" where
  "intAttr t nm = Atoi (stringAttr t nm)"

definition boolAttr :: "tag \<Rightarrow> string \<Rightarrow> bool" where
  "boolAttr t nm = (intAttr t nm \<noteq> 0)"

definition intListAttr :: "tag \<Rightarrow> string \<Rightarrow> nat \<Rightarrow> goint list" where
  "intListAttr t nm n =
     (let parts = Split (stringAttr t nm) (CHR '','');
          vals = map (\<lambda>part. Atoi (TrimSpace part)) (take n parts)
      in vals @ replicate (n - length vals) 0)"

definition paddingFrom :: "goint list \<Rightarrow> Padding" where
  "paddingFrom vals = \<lparr>Up = vals ! 0, Right = vals ! 1, Down = vals ! 2, Left = vals ! 3\<rparr>"

definition spacingFrom :: "goint list \<Rightarrow> Spacing" where
  "spacingFrom vals = \<lparr>Horizontal = vals ! 0, Vertical = vals ! 1\<rparr>"

text \<open>The descriptor before the first tag: zero \<open>Info\<close> and \<open>Common\<close>, three empty maps.\<close>

definition new_Descriptor :: Descriptor where
  "new_Descriptor =
     \<lparr>Info = \<lparr>Face = [], Size = 0, Bold = False, Italic = False, Charset = [], Unicode = False,
               StretchH = 0, Smooth = False, AA = 0,
               Padding = \<lparr>Up = 0, Right = 0, Down = 0, Left = 0\<rparr>,
               Spacing = \<lparr>Horizontal = 0, Vertical = 0\<rparr>, Outline = 0\<rparr>,
      Common = \<lparr>LineHeight = 0, Base = 0, ScaleW = 0, ScaleH = 0, Packed = False,
                 AlphaChannel = 0, RedChannel = 0, GreenChannel = 0, BlueChannel = 0\<rparr>,
      Pages = Map.empty, Chars = Map.empty, Kerning = Map.empty\<rparr>"

text \<open>
  The body of \<open>for _, tag := range tags\<close>: the \<open>switch\<close> on the tag name. The \<open>char\<close>
  case writes the literal \<open>Char{ID, X, Y, Width, Height, XOffset, YOffset, XAdvance}\<close>;
  the fields \<open>Page\<close> and \<open>Channel\<close> it leaves out are zero. \<open>rune(n)\<close> keeps the low 32
  bits of \<open>n\<close>.
\<close>

definition build_tag :: "Descriptor \<Rightarrow> tag \<Rightarrow> Descriptor" where
  "build_tag font t =
     (if name t = ''info'' then
        font\<lparr>Info :=
          \<lparr>Face = stringAttr t ''face'',
           Size = intAttr t ''size'',
           Bold = boolAttr t ''bold'',
           Italic = boolAttr t ''italic'',
           Charset = stringAttr t ''charset'',
           Unicode = boolAttr t ''unicode'',
           StretchH = intAttr t ''stretchH'',
           Smooth = boolAttr t ''smooth'',
           AA = intAttr t ''aa'',
           Padding = paddingFrom (intListAttr t ''padding'' 4),
           Spacing = spacingFrom (intListAttr t ''spacing'' 2),
           Outline = intAttr t ''outline''\<rparr>\<rparr>
      else if name t = ''common'' then
        font\<lparr>Common :=
          \<lparr>LineHeight = intAttr t ''lineHeight'',
           Base = intAttr t ''base'',
           ScaleW = intAttr t ''scaleW'',
           ScaleH = intAttr t ''scaleH'',
           Packed = boolAttr t ''packed'',
           AlphaChannel = intAttr t ''alphaChnl'',
           RedChannel = intAttr t ''redChnl'',
           GreenChannel = intAttr t ''greenChnl'',
           BlueChannel = intAttr t ''blueChnl''\<rparr>\<rparr>
      else if name t = ''page'' then
        (let i = intAttr t ''id''
         in font\<lparr>Pages := (Pages font)(i \<mapsto> \<lparr>PageID = i, File = stringAttr t ''file''\<rparr>)\<rparr>)
      else if name t = ''char'' then
        (let i = (ucast (intAttr t ''id'') :: rune)
         in font\<lparr>Chars := (Chars font)(i \<mapsto>
              \<lparr>ID = i,
               X = intAttr t ''x'',
               Y = intAttr t ''y'',
               Width = intAttr t ''width'',
               Height = intAttr t ''height'',
               XOffset = intAttr t ''xoffset'',
               YOffset = intAttr t ''yoffset'',
               XAdvance = intAttr t ''xadvance'',
               Page = 0,
               Channel = 0\<rparr>)\<rparr>)
      else if name t = ''kerning'' then
        (let pair = \<lparr>First = ucast (intAttr t ''first''), Second = ucast (intAttr t ''second'')\<rparr>
         in font\<lparr>Kerning := (Kerning font)(pair \<mapsto> \<lparr>Amount = intAttr t ''amount''\<rparr>)\<rparr>)
      else font)"

text \<open>
  \<open>parseControlData\<close> returns a pointer and an error; \<open>None\<close> is nil in both
  components.
\<close>

definition parseControlData ::
  "unicode \<Rightarrow> string \<Rightarrow> string \<Rightarrow> Descriptor option \<times> string list option"
where
  "parseControlData U filename r =
     (case parse U new_tagsParser filename r of
        (p, tags, err) \<Rightarrow>
          if err \<noteq> None then (None, err)
          else (Some (foldl build_tag new_Descriptor tags), None))"

definition ReadControlData :: "unicode \<Rightarrow> string \<Rightarrow> Descriptor option \<times> string list option" where
  "ReadControlData U r = parseControlData U ''bmfont'' r"

section \<open>Loading the page sheets (bitmapfont.go)\<close>

text \<open>
  \<open>descriptor.go\<close> and \<open>bitmapfont.go\<close> call the parser \<open>parseDescriptor\<close> and its result
  \<open>Descriptor\<close>; \<open>parse.go\<close> has the same function and the same record under the names
  \<open>parseControlData\<close> and \<open>ControlData\<close>.
\<close>

definition ReadDescriptor :: "unicode \<Rightarrow> string \<Rightarrow> Descriptor option \<times> string list option" where
  "ReadDescriptor U r = parseControlData U ''bmfont'' r"

text \<open>An error of \<open>Read\<close> is the error list of the parser or an error \<open>'e\<close> of the
  sheet readers.\<close>

datatype 'e load_error = ErrorList "string list" | SheetError 'e

definition closeChecked :: "'e option \<Rightarrow> 'e option \<Rightarrow> 'e option" where
  "closeChecked cErr err = (if cErr \<noteq> None \<and> err = None then cErr else err)"

text \<open>
  \<open>SheetReaderFunc.read\<close>: \<open>f\<close> opens the sheet of a file name, \<open>decode\<close> is
  \<open>image.Decode\<close> on the opened reader and \<open>close\<close> its \<open>Close\<close> method, which
  the deferred \<open>closeChecked\<close> calls on every path after a successful open.
\<close>

definition read_sheet ::
  "(string \<Rightarrow> 'e + 'rc) \<Rightarrow> ('rc \<Rightarrow> 'e + 'img) \<Rightarrow> ('rc \<Rightarrow> 'e option) \<Rightarrow> string
     \<Rightarrow> 'img option \<times> 'e option"
where
  "read_sheet f decode close filename =
     (case f filename of
        Inl e \<Rightarrow> (None, Some e)
      | Inr r \<Rightarrow>
          (case decode r of
             Inl e \<Rightarrow> (None, closeChecked (close r) (Some e))
           | Inr img \<Rightarrow> (Some img, closeChecked (close r) None)))"

text \<open>
  The loop \<open>for i, page := range desc.Pages\<close> runs over a Go map, whose iteration order
  the language leaves unspecified. The entries arrive as a list, in the order the runtime
  yields them. Besides the sheets, the model returns the file names handed to the sheet
  reader, in call order.
\<close>

fun Read_pages ::
  "(string \<Rightarrow> 'img option \<times> 'e option) \<Rightarrow> (goint \<times> Page) list \<Rightarrow> (goint \<rightharpoonup> 'img)
     \<Rightarrow> string list \<Rightarrow> (goint \<rightharpoonup> 'img) option \<times> 'e option \<times> string list"
where
  "Read_pages rd [] sheets opened = (Some sheets, None, opened)"
| "Read_pages rd ((i, page) # entries) sheets opened =
     (case rd (File page) of
        (sheet, Some err) \<Rightarrow> (None, Some err, opened @ [File page])
      | (sheet, None) \<Rightarrow> Read_pages rd entries (sheets(i := sheet)) (opened @ [File page]))"

text \<open>\<open>Read_sheets\<close> is \<open>Read\<close> from the construction of the font on, for a descriptor
  that has been parsed.\<close>

definition Read_sheets ::
  "Descriptor \<Rightarrow> (string \<Rightarrow> 'e + 'rc) \<Rightarrow> ('rc \<Rightarrow> 'e + 'img) \<Rightarrow> ('rc \<Rightarrow> 'e option)
     \<Rightarrow> (goint \<times> Page) list
     \<Rightarrow> 'img BitmapFont option \<times> 'e load_error option \<times> string list"
where
  "Read_sheets desc sheets decode close entries =
     (case Read_pages (read_sheet sheets decode close) entries Map.empty [] of
        (Some sh, None, opened) \<Rightarrow> (Some \<lparr>Descriptor = desc, PageSheets = sh\<rparr>, None, opened)
      | (None, None, opened) \<Rightarrow> (None, None, opened)
      | (sh, Some err, opened) \<Rightarrow> (None, Some (SheetError err), opened))"

text \<open>\<open>range_Pages\<close> stands for the runtime's enumeration of a page table. A nil
  descriptor without an error, the second case, is never returned by the parser.\<close>

definition Read ::
  "unicode \<Rightarrow> string \<Rightarrow> (string \<Rightarrow> 'e + 'rc) \<Rightarrow> ('rc \<Rightarrow> 'e + 'img) \<Rightarrow> ('rc \<Rightarrow> 'e option)
     \<Rightarrow> ((goint \<rightharpoonup> Page) \<Rightarrow> (goint \<times> Page) list)
     \<Rightarrow> 'img BitmapFont option \<times> 'e load_error option \<times> string list"
where
  "Read U r sheets decode close range_Pages =
     (case ReadDescriptor U r of
        (d, Some err) \<Rightarrow> (None, Some (ErrorList err), [])
      | (None, None) \<Rightarrow> (None, None, [])
      | (Some desc, None) \<Rightarrow> Read_sheets desc sheets decode close (range_Pages (Pages desc)))"

section \<open>Auxiliary notions for the statements\<close>

text \<open>Replaying a list of recorded calls into a sink.\<close>

definition replay ::
  "('d, 'img) drawer \<Rightarrow> 'd \<Rightarrow> (Rectangle \<times> 'img option \<times> Point) list \<Rightarrow> 'd"
where
  "replay D d calls = foldl (\<lambda>d (r, sheet, sp). D d r sheet sp) d calls"

text \<open>Two loop states agree when cursor and previous rune are equal and the sink of the
  first is the replay of the calls recorded in the second.\<close>

definition sim ::
  "('d, 'img) drawer \<Rightarrow> 'd \<Rightarrow> 'd loop_state
     \<Rightarrow> (Rectangle \<times> 'img option \<times> Point) list loop_state \<Rightarrow> bool"
where
  "sim D d0 s t = (cursor s = cursor t \<and> prev s = prev t \<and> dst s = replay D d0 (dst t))"

text \<open>Two small fonts for the examples: glyphs for \<open>A\<close> (65) and \<open>V\<close> (86) with a kerning
  pair, and the same font with a glyph for \<open>?\<close> (63).\<close>

definition font_AV :: "unit BitmapFont" where
  "font_AV =
     \<lparr>Descriptor =
        \<lparr>Info = \<lparr>Face = ''Example'', Size = 12, Bold = False, Italic = False, Charset = [],
                  Unicode = True, StretchH = 100, Smooth = True, AA = 1,
                  Padding = \<lparr>Up = 0, Right = 0, Down = 0, Left = 0\<rparr>,
                  Spacing = \<lparr>Horizontal = 1, Vertical = 1\<rparr>, Outline = 0\<rparr>,
         Common = \<lparr>LineHeight = 20, Base = 16, ScaleW = 256, ScaleH = 256, Packed = False,
                    AlphaChannel = 0, RedChannel = 0, GreenChannel = 0, BlueChannel = 0\<rparr>,
         Pages = [0 \<mapsto> \<lparr>PageID = 0, File = ''example_0.png''\<rparr>],
         Chars = [65 \<mapsto> \<lparr>ID = 65, X = 0, Y = 0, Width = 9, Height = 12, XOffset = 1, YOffset = 4,
                            XAdvance = 10, Page = 0, Channel = 0\<rparr>,
                  86 \<mapsto> \<lparr>ID = 86, X = 9, Y = 0, Width = 8, Height = 12, XOffset = 3, YOffset = 4,
                            XAdvance = 8, Page = 0, Channel = 0\<rparr>],
         Kerning = [\<lparr>First = 65, Second = 86\<rparr> \<mapsto> \<lparr>Amount = - 2\<rparr>]\<rparr>,
      PageSheets = [0 \<mapsto> ()]\<rparr>"

definition font_AVQ :: "unit BitmapFont" where
  "font_AVQ =
     font_AV\<lparr>Descriptor := (Descriptor font_AV)\<lparr>Chars := (Chars (Descriptor font_AV))
        (63 \<mapsto> \<lparr>ID = 63, X = 17, Y = 0, Width = 6, Height = 12, XOffset = 2, YOffset = 4,
                  XAdvance = 7, Page = 0, Channel = 0\<rparr>)\<rparr>\<rparr>"

text \<open>The errors of \<open>q\<close> are those of \<open>p\<close>, followed by more.\<close>

definition extends :: "tagsParser \<Rightarrow> tagsParser \<Rightarrow> bool" where
  "extends p q = (\<exists>es. errors q = errors p @ es)"

text \<open>The examples are in ASCII, where the tables of code points from 128 on are not
  consulted; they run with tables that are empty.\<close>

definition ascii_tables :: unicode where
  "ascii_tables = \<lparr>IsLetter = (\<lambda>ch. False), IsDigit = (\<lambda>ch. False), IsPrint = (\<lambda>ch. False)\<rparr>"

text \<open>Every glyph of a descriptor is on page 0 and channel 0; every recorded draw call
  takes the sheet of page 0.\<close>

definition page0_glyphs :: "Descriptor \<Rightarrow> bool" where
  "page0_glyphs d = (\<forall>c g. Chars d c = Some g \<longrightarrow> Page g = 0 \<and> Channel g = 0)"

definition sheet0_calls :: "'img BitmapFont \<Rightarrow> (Rectangle \<times> 'img option \<times> Point) list \<Rightarrow> bool" where
  "sheet0_calls f calls = (\<forall>(rect, sheet, sp) \<in> set calls. sheet = PageSheets f 0)"

section \<open>Drawing and measuring run the same loop\<close>

lemma replay_snoc: "replay D d (calls @ [(r, sheet, sp)]) = D (replay D d calls) r sheet sp"
  by (simp add: replay_def)

lemma drawText_iter_sim:
  assumes "sim D d0 s t"
  shows "sim D d0 (drawText_iter f D start i r s) (drawText_iter f record_Draw start i r t)"
  using assms
  by (auto simp: sim_def drawText_iter_def Let_def record_Draw_def replay_snoc split: option.splits)

lemma drawText_loop_sim:
  "sim D d0 s t \<Longrightarrow>
     sim D d0 (drawText_loop f D start i rs s) (drawText_loop f record_Draw start i rs t)"
proof (induction rs arbitrary: i s t)
  case Nil
  then show ?case by simp
next
  case (Cons r rs)
  from Cons.prems
  have "sim D d0 (drawText_iter f D start i r s) (drawText_iter f record_Draw start i r t)"
    by (rule drawText_iter_sim)
  then show ?case by (simp add: Cons.IH)
qed

lemma drawText_replay: "drawText f D d start rs = replay D d (draw_calls f start rs)"
proof -
  have "sim D d \<lparr>cursor = start, prev = 0, dst = d\<rparr> \<lparr>cursor = start, prev = 0, dst = []\<rparr>"
    by (simp add: sim_def replay_def)
  then have "sim D d (drawText_loop f D start 0 rs \<lparr>cursor = start, prev = 0, dst = d\<rparr>)
      (drawText_loop f record_Draw start 0 rs \<lparr>cursor = start, prev = 0, dst = []\<rparr>)"
    by (rule drawText_loop_sim)
  then show ?thesis by (simp add: sim_def drawText_def draw_calls_def)
qed

text \<open>
  Claim C2. For every font and every text, \<open>MeasureText\<close> returns the union (the fold of
  \<open>Rectangle.Union\<close> from the zero rectangle) of the destination rectangles that
  \<open>DrawText\<close> at \<open>(0, 0)\<close> hands to its sink, in the same order; \<open>DrawText\<close> is the
  fold of the blit over those same calls. Both are \<open>drawText\<close> with another sink, and
  \<open>MeasureText\<close> has no surface to write to: its only result is the rectangle.
\<close>

theorem MeasureText_is_union_of_DrawText_rectangles:
  "MeasureText f rs = foldl Union_r ZR (map fst (draw_calls f (Pt 0 0) rs))
   \<and> DrawText f blit surface (Pt 0 0) rs
       = foldl (\<lambda>d (r, sheet, sp). blit d r sheet sp) surface (draw_calls f (Pt 0 0) rs)"
proof
  have m: "replay boundsMeasurer_Draw b calls = foldl Union_r b (map fst calls)"
    for b and calls :: "(Rectangle \<times> 'a option \<times> Point) list"
    by (induction calls arbitrary: b) (auto simp: replay_def boundsMeasurer_Draw_def)
  show "MeasureText f rs = foldl Union_r ZR (map fst (draw_calls f (Pt 0 0) rs))"
    unfolding MeasureText_def drawText_replay [of f boundsMeasurer_Draw] by (rule m)
next
  have "imageDrawer_Draw blit = blit" by (intro ext) (simp add: imageDrawer_Draw_def)
  then show "DrawText f blit surface (Pt 0 0) rs
       = foldl (\<lambda>d (r, sheet, sp). blit d r sheet sp) surface (draw_calls f (Pt 0 0) rs)"
    by (simp add: DrawText_def drawText_replay [of f blit] replay_def)
qed

section \<open>Kerning, missing glyphs and newlines\<close>

lemmas draw_defs = draw_calls_def drawText_def drawText_iter_def char_def record_Draw_def
  Let_def Pt_def Add_pt_def Size_c_def Pos_def

text \<open>
  Claim C1. The claim: for a font with \<open>A\<close> (xadvance 10), \<open>V\<close> (xadvance 8) and the
  kerning pair (A, V) of amount -2, the text \<open>AV\<close> drawn from x = 0 puts the left edge of
  the rectangle of \<open>V\<close> at \<open>10 + (-2) + V.xoffset\<close>. The loop adds the kerning amount of
  (previous, current) to the cursor after it has computed and emitted the rectangle of the
  current glyph, so for every such font the left edge of \<open>V\<close> is \<open>10 + V.xoffset\<close>,
  which differs from the claimed value.
\<close>

theorem AV_second_glyph_ignores_kerning:
  assumes "Chars (Descriptor f) 65 = Some a" and "XAdvance a = 10"
    and "Chars (Descriptor f) 86 = Some v" and "XAdvance v = 8"
    and "Kerning (Descriptor f) \<lparr>First = 65, Second = 86\<rparr> = Some \<lparr>Amount = - 2\<rparr>"
  shows "map (\<lambda>(r, sheet, sp). ptX (Min_r r)) (draw_calls f (Pt 0 y) [65, 86])
           = [XOffset a, 10 + XOffset v]
         \<and> 10 + XOffset v \<noteq> 10 + (- 2) + XOffset v"
  using assms by (simp add: draw_defs)

theorem AV_second_glyph_ignores_kerning_witness:
  "map (\<lambda>(r, sheet, sp). ptX (Min_r r)) (draw_calls font_AV (Pt 0 0) [65, 86]) = [1, 13]"
  using AV_second_glyph_ignores_kerning [of font_AV _ _ 0]
  by (simp add: font_AV_def)



text \<open>
  Claim C3. For a rune \<open>r\<close> other than newline that has no glyph (the claim's \<open>Z\<close>): if
  \<open>?\<close> has a glyph, measuring the text \<open>r\<close> gives the rectangle of measuring \<open>?\<close>; if
  \<open>?\<close> has none either, measuring gives the zero rectangle, which is empty, drawing calls
  the sink zero times, and the iteration leaves cursor, previous rune and sink as they were.
\<close>

theorem missing_glyph_falls_back_or_is_skipped:
  assumes "Chars (Descriptor f) r = None" and "r \<noteq> 10"
  shows "(Chars (Descriptor f) 63 \<noteq> None \<longrightarrow> MeasureText f [r] = MeasureText f [63])
       \<and> (Chars (Descriptor f) 63 = None \<longrightarrow>
            MeasureText f [r] = ZR \<and> Empty_r (MeasureText f [r])
          \<and> draw_calls f start [r] = []
          \<and> drawText_iter f D start i r st = st)"
  using assms
  by (auto simp: MeasureText_def draw_calls_def drawText_def drawText_iter_def char_def
      ZR_def Empty_r_def Pt_def Let_def)

theorem missing_glyph_falls_back_or_is_skipped_witness:
  "MeasureText font_AVQ [90] = MeasureText font_AVQ [63]
   \<and> MeasureText font_AV [90] = ZR \<and> Empty_r (MeasureText font_AV [90])
   \<and> draw_calls font_AV (Pt 5 7) [90] = []
   \<and> drawText_iter font_AV record_Draw (Pt 5 7) 0 90 \<lparr>cursor = Pt 5 7, prev = 0, dst = []\<rparr>
        = \<lparr>cursor = Pt 5 7, prev = 0, dst = []\<rparr>"
proof -
  have n: "(90::rune) \<noteq> 10" by simp
  have q: "Chars (Descriptor font_AVQ) 90 = None" "Chars (Descriptor font_AVQ) 63 \<noteq> None"
    by (simp_all add: font_AV_def font_AVQ_def)
  have v: "Chars (Descriptor font_AV) 90 = None" "Chars (Descriptor font_AV) 63 = None"
    by (simp_all add: font_AV_def)
  show ?thesis
    using missing_glyph_falls_back_or_is_skipped [OF q(1) n] q(2)
      missing_glyph_falls_back_or_is_skipped [OF v(1) n, of "Pt 5 7" record_Draw 0
        "\<lparr>cursor = Pt 5 7, prev = 0, dst = []\<rparr>"] v(2)
    by (simp add: ZR_def Empty_r_def Pt_def)
qed

lemma drawText_loop_append:
  "drawText_loop f D start i (xs @ ys) st
     = drawText_loop f D start (i + length xs) ys (drawText_loop f D start i xs st)"
  by (induction xs arbitrary: i st) simp_all

lemma prev_unrendered:
  "(\<forall>x \<in> set zs. x = 10 \<or> char f x = None) \<Longrightarrow>
     prev (drawText_loop f D start i zs st) = prev st"
proof (induction zs arbitrary: i st)
  case Nil
  show ?case by simp
next
  case (Cons z zs)
  have "prev (drawText_iter f D start i z st) = prev st"
    using Cons.prems by (auto simp: drawText_iter_def)
  moreover have "prev (drawText_loop f D start (Suc i) zs (drawText_iter f D start i z st))
      = prev (drawText_iter f D start i z st)"
    using Cons.prems by (intro Cons.IH) simp
  ultimately show ?case by simp
qed

text \<open>
  Claim C4, as stated, fails where it names the first element of the kerning pair. In the
  text \<open>A Z newline V\<close>, with a font that has no glyph for \<open>Z\<close> (90) and none for \<open>?\<close>, the
  last rune before the newline is \<open>Z\<close>, but the iteration of \<open>Z\<close> is skipped before
  \<open>prev = r\<close>: the previous rune going into the next line is \<open>A\<close> (65), and the pair looked
  up for \<open>V\<close> is (A, V), whose amount -2 is added to the cursor; the pair (Z, V) has no
  entry. In a text that starts with a newline the previous rune is 0.
\<close>

theorem skipped_rune_before_newline_is_not_the_kerning_partner:
  "char font_AV 90 = None
   \<and> prev (drawText_loop font_AV record_Draw (Pt 0 0) 0 [65, 90, 10]
        \<lparr>cursor = Pt 0 0, prev = 0, dst = []\<rparr>) = 65
   \<and> Kerning (Descriptor font_AV) \<lparr>First = 90, Second = 86\<rparr> = None
   \<and> cursor (drawText_loop font_AV record_Draw (Pt 0 0) 0 [65, 90, 10, 86]
        \<lparr>cursor = Pt 0 0, prev = 0, dst = []\<rparr>) = Pt (8 + (- 2)) 20
   \<and> prev (drawText_loop font_AV record_Draw (Pt 0 0) 0 [10]
        \<lparr>cursor = Pt 0 0, prev = 0, dst = []\<rparr>) = 0"
  by (simp add: drawText_iter_def char_def font_AV_def Let_def Pt_def Add_pt_def Size_c_def
      Pos_def record_Draw_def)

text \<open>
  Claim C4, amended. On a newline the iteration sets \<open>cursor.X\<close> to the start x, adds
  \<open>Common.LineHeight\<close> to \<open>cursor.Y\<close> and changes nothing else, so the previous rune is
  kept. Hence for the first rune \<open>r\<close> after a newline, whatever text \<open>xs\<close> came before: the
  glyph is placed at the start x on the next line, and the kerning pair looked up is
  (previous rune before the newline, \<open>r\<close>). That previous rune is the last rune before the
  newline that was rendered (it has a glyph or falls back to \<open>?\<close>): the runes \<open>zs\<close> after
  it that are newlines or have no glyph leave it as it is; when no rune was rendered at
  all, it is the initial value, 0 in \<open>drawText\<close>.
\<close>

theorem newline_resets_x_advances_y_keeps_prev:
  fixes f :: "'img BitmapFont" and D :: "('d, 'img) drawer"
  defines "lh \<equiv> LineHeight (Common (Descriptor f))"
  shows
   "drawText_iter f D start i 10 st = st\<lparr>cursor := \<lparr>ptX = ptX start, ptY = ptY (cursor st) + lh\<rparr>\<rparr>
    \<and> (r \<noteq> 10 \<and> char f r = Some ch \<and> drawText_loop f D start 0 xs st0 = st \<longrightarrow>
         drawText_loop f D start 0 (xs @ [10, r]) st0 =
           \<lparr>cursor = \<lparr>ptX = ptX start + XAdvance ch +
                              (case Kerning (Descriptor f) \<lparr>First = prev st, Second = r\<rparr> of
                                 Some k \<Rightarrow> Amount k | None \<Rightarrow> 0),
                       ptY = ptY (cursor st) + lh\<rparr>,
            prev = r,
            dst = D (dst st)
                    \<lparr>Min_r = Pt (ptX start + XOffset ch)
                                 (ptY (cursor st) + lh - Base (Common (Descriptor f)) + YOffset ch),
                     Max_r = Add_pt (Pt (ptX start + XOffset ch)
                                 (ptY (cursor st) + lh - Base (Common (Descriptor f)) + YOffset ch))
                               (Size_c ch)\<rparr>
                    (PageSheets f (Page ch)) (Pos ch)\<rparr>)
    \<and> (a \<noteq> 10 \<and> char f a \<noteq> None \<and> (\<forall>x \<in> set zs. x = 10 \<or> char f x = None) \<longrightarrow>
         prev (drawText_loop f D start 0 (ys @ [a] @ zs) st0) = a)
    \<and> ((\<forall>x \<in> set zs. x = 10 \<or> char f x = None) \<longrightarrow>
         prev (drawText_loop f D start 0 zs st0) = prev st0)"
proof (intro conjI impI)
  show "drawText_iter f D start i 10 st
      = st\<lparr>cursor := \<lparr>ptX = ptX start, ptY = ptY (cursor st) + lh\<rparr>\<rparr>"
    by (simp add: drawText_iter_def lh_def)
next
  assume "r \<noteq> 10 \<and> char f r = Some ch \<and> drawText_loop f D start 0 xs st0 = st"
  then show "drawText_loop f D start 0 (xs @ [10, r]) st0 =
           \<lparr>cursor = \<lparr>ptX = ptX start + XAdvance ch +
                              (case Kerning (Descriptor f) \<lparr>First = prev st, Second = r\<rparr> of
                                 Some k \<Rightarrow> Amount k | None \<Rightarrow> 0),
                       ptY = ptY (cursor st) + lh\<rparr>,
            prev = r,
            dst = D (dst st)
                    \<lparr>Min_r = Pt (ptX start + XOffset ch)
                                 (ptY (cursor st) + lh - Base (Common (Descriptor f)) + YOffset ch),
                     Max_r = Add_pt (Pt (ptX start + XOffset ch)
                                 (ptY (cursor st) + lh - Base (Common (Descriptor f)) + YOffset ch))
                               (Size_c ch)\<rparr>
                    (PageSheets f (Page ch)) (Pos ch)\<rparr>"
    by (auto simp: lh_def drawText_loop_append drawText_iter_def Let_def split: option.splits)
next
  assume a: "a \<noteq> 10 \<and> char f a \<noteq> None \<and> (\<forall>x \<in> set zs. x = 10 \<or> char f x = None)"
  then have "prev (drawText_loop f D start 0 (ys @ [a]) st0) = a"
    by (auto simp: drawText_loop_append drawText_iter_def Let_def split: option.splits)
  moreover have "prev (drawText_loop f D start (0 + length (ys @ [a])) zs
        (drawText_loop f D start 0 (ys @ [a]) st0))
      = prev (drawText_loop f D start 0 (ys @ [a]) st0)"
    using a by (intro prev_unrendered) simp
  ultimately show "prev (drawText_loop f D start 0 (ys @ [a] @ zs) st0) = a"
    using drawText_loop_append [of f D start 0 "ys @ [a]" zs st0] by simp
next
  assume "\<forall>x \<in> set zs. x = 10 \<or> char f x = None"
  then show "prev (drawText_loop f D start 0 zs st0) = prev st0"
    by (rule prev_unrendered)
qed

theorem newline_resets_x_advances_y_keeps_prev_witness:
  "drawText_iter font_AV record_Draw (Pt 5 7) 1 10
       \<lparr>cursor = Pt 15 7, prev = 65,
        dst = [(\<lparr>Min_r = Pt 6 (- 5), Max_r = Pt 15 7\<rparr>, Some (), Pt 0 0)]\<rparr>
     = \<lparr>cursor = Pt 5 27, prev = 65,
        dst = [(\<lparr>Min_r = Pt 6 (- 5), Max_r = Pt 15 7\<rparr>, Some (), Pt 0 0)]\<rparr>
   \<and> cursor (drawText_loop font_AV record_Draw (Pt 5 7) 0 ([65, 90] @ [10, 86])
        \<lparr>cursor = Pt 5 7, prev = 0, dst = []\<rparr>) = Pt 11 27
   \<and> prev (drawText_loop font_AV record_Draw (Pt 5 7) 0 ([] @ [65] @ [90, 10])
        \<lparr>cursor = Pt 5 7, prev = 0, dst = []\<rparr>) = 65
   \<and> prev (drawText_loop font_AV record_Draw (Pt 5 7) 0 [90, 10]
        \<lparr>cursor = Pt 5 7, prev = 0, dst = []\<rparr>) = 0"
proof -
  define S0 :: "(Rectangle \<times> unit option \<times> Point) list loop_state"
    where "S0 = \<lparr>cursor = Pt 5 7, prev = 0, dst = []\<rparr>"
  define S1 :: "(Rectangle \<times> unit option \<times> Point) list loop_state"
    where "S1 = \<lparr>cursor = Pt 15 7, prev = 65,
      dst = [(\<lparr>Min_r = Pt 6 (- 5), Max_r = Pt 15 7\<rparr>, Some (), Pt 0 0)]\<rparr>"
  define V where "V = \<lparr>ID = 86, X = 9, Y = 0, Width = 8, Height = 12, XOffset = 3,
      YOffset = 4, XAdvance = 8, Page = 0, Channel = 0\<rparr>"
  have c: "char font_AV 86 = Some V" "char font_AV 65 \<noteq> None"
    by (simp_all add: char_def font_AV_def V_def)
  have z: "\<forall>x \<in> set [90, 10]. x = 10 \<or> char font_AV x = None"
    by (simp add: char_def font_AV_def)
  have s: "drawText_loop font_AV record_Draw (Pt 5 7) 0 [65, 90] S0 = S1"
    by (simp add: drawText_iter_def char_def font_AV_def Let_def Pt_def Add_pt_def Size_c_def
        Pos_def record_Draw_def S0_def S1_def)
  have k: "LineHeight (Common (Descriptor font_AV)) = 20"
    by (simp add: font_AV_def)
  have n: "(86::rune) \<noteq> 10" "(65::rune) \<noteq> 10" by simp_all
  note t = newline_resets_x_advances_y_keeps_prev [where f = font_AV and D = record_Draw
      and start = "Pt 5 7" and i = 1 and st = S1 and r = 86 and ch = V and xs = "[65, 90]"
      and ?st0.0 = S0 and a = 65 and ys = "[]" and zs = "[90, 10]"]
  note A = t [THEN conjunct1]
  note B = t [THEN conjunct2, THEN conjunct1, THEN mp, OF conjI [OF n(1) conjI [OF c(1) s]]]
  note C = t [THEN conjunct2, THEN conjunct2, THEN conjunct1, THEN mp,
      OF conjI [OF n(2) conjI [OF c(2) z]]]
  note E = t [THEN conjunct2, THEN conjunct2, THEN conjunct2, THEN mp, OF z]
  have "drawText_iter font_AV record_Draw (Pt 5 7) 1 10 S1 = S1\<lparr>cursor := Pt 5 27\<rparr>"
    by (subst A) (simp add: k S1_def Pt_def)
  moreover have "cursor (drawText_loop font_AV record_Draw (Pt 5 7) 0 ([65, 90] @ [10, 86]) S0) = Pt 11 27"
    by (subst B) (simp add: font_AV_def S1_def V_def Pt_def)
  moreover note C
  moreover have "prev (drawText_loop font_AV record_Draw (Pt 5 7) 0 [90, 10] S0) = 0"
    by (subst E) (simp add: S0_def)
  ultimately show ?thesis
    by (simp add: S0_def S1_def)
qed

section \<open>Errors of the parser\<close>

lemma errors_next_tok [simp]: "errors (next_tok U p) = errors p"
  by (simp add: next_tok_def Let_def split: prod.splits)

lemma errors_errorExpected:
  "errors (errorExpected U p msg)
     = errors p @ [Position_String (pos p) @ '': expected '' @ msg @ '', found '' @ TokenString U (tok p)]"
  by (simp add: errorExpected_def error_def newError_def)

lemma errors_expect:
  "errors (expect U p t msg)
     = (if tok p \<noteq> t
        then errors p @ [Position_String (pos p) @ '': expected '' @ msg @ '', found '' @ TokenString U (tok p)]
        else errors p)"
  by (simp add: expect_def errors_errorExpected)

lemma errors_parseIntList_loop: "errors (fst (parseIntList_loop U p sb)) = errors p"
proof (induction U p sb rule: parseIntList_loop.induct)
  case (1 U p sb)
  then show ?case by (subst parseIntList_loop.simps) simp
qed

lemma extends_refl [simp]: "extends p p"
  by (simp add: extends_def)







lemma errors_parse_attr:
  "errors (fst (parse_attr U p amap))
     = errors (expect U (expect U p Ident ''attribute name'') (Rune (ord (CHR ''=''))) ''\"=\"'')
       @ (let p2 = expect U (expect U p Ident ''attribute name'') (Rune (ord (CHR ''=''))) ''\"=\"''
          in if tok p2 = String \<or> tok p2 = Int_tok \<or> tok p2 = Rune (ord (CHR ''-'')) then []
             else [Position_String (pos p2) @ '': expected string or integer attribute value, found ''
                     @ TokenString U (tok p2)])"
proof -
  define p1 where "p1 = expect U p Ident ''attribute name''"
  define p2 where "p2 = expect U p1 (Rune (ord (CHR ''=''))) ''\"=\"''"
  have d: "errors (fst (parseIntList U p2)) = errors p2"
    by (simp add: parseIntList_def errors_parseIntList_loop)
  have e: "errors (errorExpected U p2 ''string or integer attribute value'')
      = errors p2 @ [Position_String (pos p2) @ '': expected string or integer attribute value, found ''
                     @ TokenString U (tok p2)]"
    by (simp add: errors_errorExpected)
  show ?thesis
    unfolding parse_attr_def Let_def p1_def [symmetric] p2_def [symmetric]
    using d e by (auto split: option.splits prod.splits)
qed

lemma expect_missing:
  "tok p \<noteq> t \<Longrightarrow>
     expect U p t msg
       = next_tok U (p\<lparr>errors := errors p @ [Position_String (pos p) @ '': expected '' @ msg
                                               @ '', found '' @ TokenString U (tok p)]\<rparr>)"
  by (simp add: expect_def errorExpected_def error_def newError_def)

lemma tok_parse_attrs:
  "tok (fst (parse_attrs U p amap)) = Rune (ord (CHR 0x0A)) \<or> tok (fst (parse_attrs U p amap)) = EOF"
proof (induction U p amap rule: parse_attrs.induct)
  case (1 U p amap)
  show ?case
  proof (cases "tok p \<noteq> Rune (ord (CHR 0x0A)) \<and> tok p \<noteq> EOF")
    case True
    obtain p' amap' where pa: "parse_attr U p amap = (p', amap')" by (cases "parse_attr U p amap")
    from "1.IH" [OF True pa [symmetric]] show ?thesis
      using True pa by (subst (1 2) parse_attrs.simps) simp
  next
    case False
    then show ?thesis by (subst (1 2) parse_attrs.simps) auto
  qed
qed

lemma page_id_3_line:
  "errors (fst (parse U new_tagsParser ''bmfont'' ''page id 3\<newline>char id=65''))
     = [''bmfont:1:9: expected \"=\", found Int'',
        ''bmfont:1:10: expected string or integer attribute value, found \"'' @ [CHR 0x5C] @ ''n\"'']
   \<and> map (\<lambda>t. (name t, attrs t ''id''))
         (fst (snd (parse U new_tagsParser ''bmfont'' ''page id 3\<newline>char id=65'')))
       = [(''page'', Some []), (''char'', Some ''65'')]"
  by code_simp

lemma errors_parse_attr_full:
  "(let p1 = expect U p Ident ''attribute name'';
        p2 = expect U p1 (Rune (ord (CHR ''=''))) ''\"=\"''
    in errors (fst (parse_attr U p amap))
         = errors p
           @ (if tok p \<noteq> Ident
              then [Position_String (pos p) @ '': expected attribute name, found ''
                      @ TokenString U (tok p)]
              else [])
           @ (if tok p1 \<noteq> Rune (ord (CHR ''=''))
              then [Position_String (pos p1) @ '': expected \"=\", found '' @ TokenString U (tok p1)]
              else [])
           @ (if tok p2 = String \<or> tok p2 = Int_tok \<or> tok p2 = Rune (ord (CHR ''-'')) then []
              else [Position_String (pos p2)
                      @ '': expected string or integer attribute value, found ''
                      @ TokenString U (tok p2)]))"
  unfolding Let_def by (subst errors_parse_attr) (simp add: errors_expect Let_def)

text \<open>
  Claim C5, as stated, fails in the number of errors. For the line \<open>page id 3\<close> the parser
  records two errors, not one: \<open>expect\<close> reports the missing \<open>=\<close> at the token \<open>3\<close> and
  then consumes that token in place of the \<open>=\<close>, so that no value is left and the
  \<open>default\<close> case of the \<open>switch\<close> reports a missing attribute value at the end of the line.
\<close>

theorem missing_equals_line_has_two_errors:
  "errors (fst (parse ascii_tables new_tagsParser ''bmfont'' ''page id 3''))
     = [''bmfont:1:9: expected \"=\", found Int'',
        ''bmfont:1:10: expected string or integer attribute value, found EOF'']
   \<and> length (errors (fst (parse ascii_tables new_tagsParser ''bmfont'' ''page id 3''))) = 2
   \<and> snd (parseControlData ascii_tables ''bmfont'' ''page id 3'')
     = Some [''bmfont:1:9: expected \"=\", found Int'',
             ''bmfont:1:10: expected string or integer attribute value, found EOF'']"
  by code_simp

text \<open>
  Claim C5, amended. Where \<open>=\<close> is expected and another token is found, \<open>expect\<close> appends
  exactly one error, "expected "=", found" with the name of the token found and with the
  position of that token, and moves on to the next token. One pass of the attribute loop
  appends at most three errors, in this order: for a missing attribute name, for a missing
  \<open>=\<close> and for a missing value; the last one follows the second when the token consumed
  in place of the \<open>=\<close> was the value, as in \<open>page id 3\<close>. The attribute loop always runs
  to the newline or to the end of the input, so the parser continues with the next line:
  after the line \<open>page id 3\<close> with its two errors, the tag \<open>page\<close> is emitted with an empty
  \<open>id\<close> and the next line is parsed as usual.
\<close>

theorem missing_equals_is_reported_and_parsing_continues:
  "(tok p \<noteq> Rune (ord (CHR ''='')) \<longrightarrow>
      expect U p (Rune (ord (CHR ''=''))) ''\"=\"''
        = next_tok U (p\<lparr>errors := errors p @ [Position_String (pos p) @ '': expected \"=\", found ''
                                                @ TokenString U (tok p)]\<rparr>))
   \<and> (let p1 = expect U p Ident ''attribute name'';
           p2 = expect U p1 (Rune (ord (CHR ''=''))) ''\"=\"''
       in errors (fst (parse_attr U p amap))
            = errors p
              @ (if tok p \<noteq> Ident
                 then [Position_String (pos p) @ '': expected attribute name, found ''
                         @ TokenString U (tok p)]
                 else [])
              @ (if tok p1 \<noteq> Rune (ord (CHR ''=''))
                 then [Position_String (pos p1) @ '': expected \"=\", found ''
                         @ TokenString U (tok p1)]
                 else [])
              @ (if tok p2 = String \<or> tok p2 = Int_tok \<or> tok p2 = Rune (ord (CHR ''-'')) then []
                 else [Position_String (pos p2)
                         @ '': expected string or integer attribute value, found ''
                         @ TokenString U (tok p2)]))
   \<and> (tok (fst (parse_attrs U p amap)) = Rune (ord (CHR 0x0A))
        \<or> tok (fst (parse_attrs U p amap)) = EOF)
   \<and> errors (fst (parse U new_tagsParser ''bmfont'' ''page id 3\<newline>char id=65''))
       = [''bmfont:1:9: expected \"=\", found Int'',
          ''bmfont:1:10: expected string or integer attribute value, found \"'' @ [CHR 0x5C] @ ''n\"'']
   \<and> map (\<lambda>t. (name t, attrs t ''id''))
         (fst (snd (parse U new_tagsParser ''bmfont'' ''page id 3\<newline>char id=65'')))
       = [(''page'', Some []), (''char'', Some ''65'')]"
proof -
  have "tok p \<noteq> Rune (ord (CHR ''='')) \<longrightarrow>
      expect U p (Rune (ord (CHR ''=''))) ''\"=\"''
        = next_tok U (p\<lparr>errors := errors p @ [Position_String (pos p) @ '': expected \"=\", found ''
                                                @ TokenString U (tok p)]\<rparr>)"
    using expect_missing [of p "Rune (ord (CHR ''=''))" U "''\"=\"''"] by simp
  then show ?thesis
    using errors_parse_attr_full [of U p amap] tok_parse_attrs [of U p amap] page_id_3_line [of U]
    by blast
qed

theorem missing_equals_is_reported_and_parsing_continues_witness:
  "(let q = expect ascii_tables (parse_init ascii_tables new_tagsParser ''bmfont''
              ''page id 3\<newline>char id=65'') Ident ''tag name'';
        p = expect ascii_tables q Ident ''attribute name''
    in tok p = Int_tok
       \<and> errors (expect ascii_tables p (Rune (ord (CHR ''=''))) ''\"=\"'')
           = [''bmfont:1:9: expected \"=\", found Int'']
       \<and> errors (fst (parse_attr ascii_tables q Map.empty))
           = [''bmfont:1:9: expected \"=\", found Int'',
              ''bmfont:1:10: expected string or integer attribute value, found \"''
                @ [CHR 0x5C] @ ''n\"''])"
proof -
  define q where "q = expect ascii_tables (parse_init ascii_tables new_tagsParser ''bmfont''
      ''page id 3\<newline>char id=65'') Ident ''tag name''"
  define p where "p = expect ascii_tables q Ident ''attribute name''"
  define p2 where "p2 = expect ascii_tables p (Rune (ord (CHR ''=''))) ''\"=\"''"
  note t = missing_equals_is_reported_and_parsing_continues [where U = ascii_tables]
  have h: "tok p = Int_tok" "errors p = []" "Position_String (pos p) = ''bmfont:1:9''"
    unfolding p_def q_def by code_simp+
  have hq: "tok q = Ident" "errors q = []"
    unfolding q_def by code_simp+
  have h2: "tok p2 = Rune (ord (CHR 0x0A))" "Position_String (pos p2) = ''bmfont:1:10''"
    unfolding p2_def p_def q_def by code_simp+
  have ts: "TokenString ascii_tables Int_tok = ''Int''"
    "TokenString ascii_tables (Rune (ord (CHR 0x0A))) = ''\"'' @ [CHR 0x5C] @ ''n\"''"
    by code_simp+
  have qr: "ValidRune 10" "quote_rune ascii_tables 10 = [CHR 0x5C, CHR ''n'']"
    by code_simp+
  have ne: "tok p \<noteq> Rune (ord (CHR ''=''))" by (simp add: h(1))
  from t [where p = p, THEN conjunct1, THEN mp, OF ne]
  have A: "errors (expect ascii_tables p (Rune (ord (CHR ''=''))) ''\"=\"'')
      = [''bmfont:1:9: expected \"=\", found Int'']"
    by (simp add: errors_next_tok h ts)
  from t [where p = q and amap = Map.empty, THEN conjunct2, THEN conjunct1]
  have B: "errors (fst (parse_attr ascii_tables q Map.empty))
      = [''bmfont:1:9: expected \"=\", found Int'',
         ''bmfont:1:10: expected string or integer attribute value, found \"''
           @ [CHR 0x5C] @ ''n\"'']"
    unfolding Let_def p_def [symmetric] p2_def [symmetric]
    by (simp add: h hq h2 ts qr)
  from h(1) A B show ?thesis
    unfolding Let_def q_def [symmetric] p_def [symmetric] by simp
qed



section \<open>Quoted attribute values\<close>

lemma started_first_read [simp]: "started (first_read s)"
  by (simp add: first_read_def split: list.splits prod.splits)

lemma first_read_started: "started s \<Longrightarrow> first_read s = s"
  by (simp add: first_read_def)

lemma started_next_tok [simp]: "started (scanner (next_tok U p))"
  by (simp add: next_tok_def Scan_def Let_def split: prod.splits)

lemma started_expect [simp]: "started (scanner (expect U p t msg))"
  by (simp add: expect_def)

lemma src_Next: "started s \<Longrightarrow> src (Next s) = tl (src s)"
  by (simp add: Next_def first_read_started Let_def split: list.splits prod.splits)

lemma parse_attr_extra_quote:
  "(let p2 = expect U (expect U p Ident ''attribute name'') (Rune (ord (CHR ''=''))) ''\"=\"''
    in tok p2 = String \<and> lit p2 = ''\"\"'' \<and> Peek (scanner p2) = Rune (ord (CHR 0x22)) \<longrightarrow>
         parse_attr U p amap
           = (next_tok U (p2\<lparr>scanner := Next (scanner p2)\<rparr>), amap(lit p \<mapsto> [CHR 0x22]))
         \<and> src (Next (scanner p2)) = tl (src (scanner p2)))"
proof -
  have u: "Unquote ''\"\"'' = Some []" by code_simp
  show ?thesis
    unfolding Let_def
  proof (intro impI, elim conjE)
    let ?p2 = "expect U (expect U p Ident ''attribute name'') (Rune (ord (CHR ''=''))) ''\"=\"''"
    assume h: "tok ?p2 = String" "lit ?p2 = ''\"\"''" "Peek (scanner ?p2) = Rune (ord (CHR 0x22))"
    have "parse_attr U p amap
        = (next_tok U (?p2\<lparr>scanner := Next (scanner ?p2)\<rparr>), amap(lit p \<mapsto> [CHR 0x22]))"
      unfolding parse_attr_def Let_def using h u by simp
    moreover have "src (Next (scanner ?p2)) = tl (src (scanner ?p2))"
      by (rule src_Next) simp
    ultimately show "parse_attr U p amap
        = (next_tok U (?p2\<lparr>scanner := Next (scanner ?p2)\<rparr>), amap(lit p \<mapsto> [CHR 0x22]))
        \<and> src (Next (scanner ?p2)) = tl (src (scanner ?p2))" by simp
  qed
qed

lemma letter_triple_quote_parses:
  "errors (fst (parse U new_tagsParser ''bmfont'' ''char letter=\"\"\"'')) = []
   \<and> map (\<lambda>t. (name t, attrs t ''letter'')) (fst (snd (parse U new_tagsParser ''bmfont'' ''char letter=\"\"\"'')))
       = [(''char'', Some [CHR 0x22])]
   \<and> errors (fst (parse U new_tagsParser ''bmfont'' ''char id=34 letter=\"\"\" x=5\<newline>page id=0'')) = []
   \<and> map (\<lambda>t. (name t, map (attrs t) [''id'', ''letter'', ''x'']))
         (fst (snd (parse U new_tagsParser ''bmfont'' ''char id=34 letter=\"\"\" x=5\<newline>page id=0'')))
       = [(''char'', [Some ''34'', Some [CHR 0x22], Some ''5'']), (''page'', [Some ''0'', None, None])]"
  by code_simp

text \<open>
  Claim C6. The scanner reads \<open>""\<close> as a string literal, which unquotes to the empty
  string. When the next character is another quote, the attribute loop consumes it with
  \<open>Next\<close>, stores the value of the one character \<open>"\<close> under the attribute name and scans
  the next token after that quote. For the input \<open>letter="""\<close> the value is the single
  double quote, no error is recorded, and an attribute and a line after it are
  parsed as usual.
\<close>

theorem triple_quote_value_is_one_quote:
  "Unquote ''\"\"'' = Some []
   \<and> (let p2 = expect U (expect U p Ident ''attribute name'') (Rune (ord (CHR ''=''))) ''\"=\"''
       in tok p2 = String \<and> lit p2 = ''\"\"'' \<and> Peek (scanner p2) = Rune (ord (CHR 0x22)) \<longrightarrow>
            parse_attr U p amap
              = (next_tok U (p2\<lparr>scanner := Next (scanner p2)\<rparr>), amap(lit p \<mapsto> [CHR 0x22]))
            \<and> src (Next (scanner p2)) = tl (src (scanner p2)))
   \<and> errors (fst (parse U new_tagsParser ''bmfont'' ''char letter=\"\"\"'')) = []
   \<and> map (\<lambda>t. (name t, attrs t ''letter''))
         (fst (snd (parse U new_tagsParser ''bmfont'' ''char letter=\"\"\"'')))
       = [(''char'', Some [CHR 0x22])]
   \<and> errors (fst (parse U new_tagsParser ''bmfont''
         ''char id=34 letter=\"\"\" x=5\<newline>page id=0'')) = []
   \<and> map (\<lambda>t. (name t, map (attrs t) [''id'', ''letter'', ''x'']))
         (fst (snd (parse U new_tagsParser ''bmfont''
            ''char id=34 letter=\"\"\" x=5\<newline>page id=0'')))
       = [(''char'', [Some ''34'', Some [CHR 0x22], Some ''5'']),
          (''page'', [Some ''0'', None, None])]"
proof -
  have "Unquote ''\"\"'' = Some []" by code_simp
  then show ?thesis
    using parse_attr_extra_quote [of U p amap] letter_triple_quote_parses [of U] by blast
qed

theorem triple_quote_value_is_one_quote_witness:
  "(let p = expect ascii_tables (parse_init ascii_tables new_tagsParser ''bmfont''
              ''char letter=\"\"\" x=5'') Ident ''tag name'';
        p2 = expect ascii_tables (expect ascii_tables p Ident ''attribute name'')
               (Rune (ord (CHR ''=''))) ''\"=\"''
    in tok p2 = String \<and> lit p2 = ''\"\"'' \<and> bytes_of (src (scanner p2)) = ''\" x=5''
       \<and> snd (parse_attr ascii_tables p Map.empty) ''letter'' = Some [CHR 0x22]
       \<and> bytes_of (src (Next (scanner p2))) = '' x=5'')"
proof -
  define p where "p = expect ascii_tables (parse_init ascii_tables new_tagsParser ''bmfont''
      ''char letter=\"\"\" x=5'') Ident ''tag name''"
  define p2 where "p2 = expect ascii_tables (expect ascii_tables p Ident ''attribute name'')
      (Rune (ord (CHR ''=''))) ''\"=\"''"
  have h: "tok p2 = String \<and> lit p2 = ''\"\"'' \<and> Peek (scanner p2) = Rune (ord (CHR 0x22))"
    unfolding p2_def p_def by code_simp
  have e: "lit p = ''letter''" "bytes_of (src (scanner p2)) = ''\" x=5''"
    "bytes_of (tl (src (scanner p2))) = '' x=5''"
    unfolding p2_def p_def by code_simp+
  from triple_quote_value_is_one_quote [where U = ascii_tables and p = p and amap = Map.empty,
      THEN conjunct2, THEN conjunct1, unfolded Let_def, folded p2_def, THEN mp, OF h]
  have "snd (parse_attr ascii_tables p Map.empty) ''letter'' = Some [CHR 0x22]"
    and "bytes_of (src (Next (scanner p2))) = '' x=5''"
    by (simp_all add: e)
  with h e show ?thesis
    unfolding Let_def p_def [symmetric] p2_def [symmetric] by simp
qed










section \<open>The page of a glyph\<close>

lemma page0_glyphs_build_tag: "page0_glyphs d \<Longrightarrow> page0_glyphs (build_tag d t)"
  by (auto simp: page0_glyphs_def build_tag_def Let_def)

lemma page0_glyphs_foldl: "page0_glyphs d \<Longrightarrow> page0_glyphs (foldl build_tag d ts)"
  by (induction ts arbitrary: d) (simp_all add: page0_glyphs_build_tag)

lemma page0_glyphs_parseControlData:
  assumes "fst (parseControlData U filename r) = Some d"
  shows "page0_glyphs d"
proof -
  have "page0_glyphs new_Descriptor" by (simp add: page0_glyphs_def new_Descriptor_def)
  then have "page0_glyphs (foldl build_tag new_Descriptor ts)" for ts
    by (rule page0_glyphs_foldl)
  with assms show ?thesis
    by (auto simp: parseControlData_def split: prod.splits if_splits)
qed

lemma char_page0: "page0_glyphs (Descriptor f) \<Longrightarrow> char f r = Some ch \<Longrightarrow> Page ch = 0"
  by (auto simp: page0_glyphs_def char_def split: option.splits)

lemma sheet0_drawText_iter:
  assumes "page0_glyphs (Descriptor f)" and "sheet0_calls f (dst st)"
  shows "sheet0_calls f (dst (drawText_iter f record_Draw start i r st))"
proof (cases "char f r")
  case None
  with assms(2) show ?thesis by (simp add: drawText_iter_def)
next
  case (Some ch)
  with assms(1) have "Page ch = 0" by (rule char_page0)
  with Some assms(2) show ?thesis
    by (auto simp: drawText_iter_def Let_def record_Draw_def sheet0_calls_def)
qed

lemma sheet0_drawText_loop:
  "page0_glyphs (Descriptor f) \<Longrightarrow> sheet0_calls f (dst st) \<Longrightarrow>
     sheet0_calls f (dst (drawText_loop f record_Draw start i rs st))"
  by (induction rs arbitrary: i st) (simp_all add: sheet0_drawText_iter)

lemma build_tag_char:
  "name t = ''char'' \<Longrightarrow>
     Chars (build_tag d t) (ucast (intAttr t ''id''))
       = Some \<lparr>ID = ucast (intAttr t ''id''), X = intAttr t ''x'', Y = intAttr t ''y'',
               Width = intAttr t ''width'', Height = intAttr t ''height'',
               XOffset = intAttr t ''xoffset'', YOffset = intAttr t ''yoffset'',
               XAdvance = intAttr t ''xadvance'', Page = 0, Channel = 0\<rparr>"
  by (simp add: build_tag_def Let_def)

text \<open>
  Claim C10. In a descriptor that \<open>parseControlData\<close> returns, every glyph has \<open>Page\<close> 0
  and \<open>Channel\<close> 0, whatever attributes its \<open>char\<close> tag had. Hence with a font of such a
  descriptor, \<open>DrawText\<close> is the replay of draw calls that all take the sheet
  \<open>PageSheets[0]\<close>. The \<open>char\<close> case of the builder stores, under the id, a glyph of
  the id and the seven attributes \<open>x\<close>, \<open>y\<close>, \<open>width\<close>, \<open>height\<close>, \<open>xoffset\<close>,
  \<open>yoffset\<close>, \<open>xadvance\<close>, with \<open>Page\<close> and \<open>Channel\<close> zero.
\<close>

theorem parsed_glyphs_are_on_page_zero:
  assumes "fst (parseControlData U filename r) = Some d"
  shows "(Chars d c = Some g \<longrightarrow> Page g = 0 \<and> Channel g = 0)
       \<and> (Descriptor f = d \<longrightarrow>
            DrawText f blit img start rs
              = replay (imageDrawer_Draw blit) img (draw_calls f start rs)
            \<and> (\<forall>(rect, sheet, sp) \<in> set (draw_calls f start rs). sheet = PageSheets f 0))
       \<and> (name t = ''char'' \<longrightarrow>
            Chars (build_tag d0 t) (ucast (intAttr t ''id''))
              = Some \<lparr>ID = ucast (intAttr t ''id''), X = intAttr t ''x'', Y = intAttr t ''y'',
                      Width = intAttr t ''width'', Height = intAttr t ''height'',
                      XOffset = intAttr t ''xoffset'', YOffset = intAttr t ''yoffset'',
                      XAdvance = intAttr t ''xadvance'', Page = 0, Channel = 0\<rparr>)"
proof -
  have d: "page0_glyphs d" using assms by (rule page0_glyphs_parseControlData)
  have "sheet0_calls f (draw_calls f start rs)" if "Descriptor f = d"
    unfolding draw_calls_def drawText_def
    using d that by (intro sheet0_drawText_loop) (simp_all add: sheet0_calls_def)
  moreover have "DrawText f blit img start rs
      = replay (imageDrawer_Draw blit) img (draw_calls f start rs)"
    unfolding DrawText_def by (rule drawText_replay)
  ultimately show ?thesis
    using d build_tag_char [of t d0] by (auto simp: page0_glyphs_def sheet0_calls_def)
qed

theorem parsed_glyphs_are_on_page_zero_witness:
  "\<exists>d g. fst (parseControlData ascii_tables ''bmfont''
             ''char id=65 x=1 y=2 width=3 height=4 xoffset=5 yoffset=-6 xadvance=7 page=3 chnl=15'') = Some d
     \<and> Chars d 65 = Some g \<and> X g = 1 \<and> XAdvance g = 7 \<and> Page g = 0 \<and> Channel g = 0
     \<and> (\<forall>(rect, sheet, sp) \<in> set (draw_calls \<lparr>Descriptor = d, PageSheets = [0 \<mapsto> True, 3 \<mapsto> False]\<rparr> (Pt 0 0) [65, 65]).
           sheet = Some True)
     \<and> length (draw_calls \<lparr>Descriptor = d, PageSheets = [0 \<mapsto> True, 3 \<mapsto> False]\<rparr> (Pt 0 0) [65, 65]) = 2"
proof -
  let ?r = "''char id=65 x=1 y=2 width=3 height=4 xoffset=5 yoffset=-6 xadvance=7 page=3 chnl=15''"
  let ?G = "\<lparr>ID = 65, X = 1, Y = 2, Width = 3, Height = 4, XOffset = 5, YOffset = - 6,
      XAdvance = 7, Page = 0, Channel = 0\<rparr>"
  have "map_option (\<lambda>d. Chars d 65) (fst (parseControlData ascii_tables ''bmfont'' ?r)) = Some (Some ?G)"
    by code_simp
  then obtain d where d: "fst (parseControlData ascii_tables ''bmfont'' ?r) = Some d" "Chars d 65 = Some ?G"
    by (cases "fst (parseControlData ascii_tables ''bmfont'' ?r)") auto
  let ?f = "\<lparr>Descriptor = d, PageSheets = [0 \<mapsto> True, 3 \<mapsto> False]\<rparr>"
  note t = parsed_glyphs_are_on_page_zero [OF d(1), where c = 65 and g = ?G and f = ?f
      and blit = "\<lambda>canvas rect sheet sp. canvas" and img = "()" and start = "Pt 0 0"
      and rs = "[65, 65]"]
  have g: "Page ?G = 0 \<and> Channel ?G = 0"
    using t [THEN conjunct1] d(2) by blast
  have s: "\<forall>(rect, sheet, sp) \<in> set (draw_calls ?f (Pt 0 0) [65, 65]). sheet = PageSheets ?f 0"
    using t [THEN conjunct2, THEN conjunct1] by simp
  have l: "length (draw_calls ?f (Pt 0 0) [65, 65]) = 2"
    using d(2) by (simp add: draw_defs Let_def)
  from s have "\<forall>(rect, sheet, sp) \<in> set (draw_calls ?f (Pt 0 0) [65, 65]). sheet = Some True"
    by simp
  with g l d show ?thesis
    by (intro exI [of _ d] exI [of _ ?G]) simp
qed

end
